theory Spec2Isabelle
  imports Complex_Main "HOL-Library.Log_Nat"
begin

section \<open>JavaScript values\<close>

text \<open>
  The sale route is TypeScript running on JavaScript values. A JavaScript number is
  an IEEE 754 double: here the rational it stands for, or one of the three non-finite
  values the handler tests for (\<open>Number.isNaN\<close>, \<open>Number.isFinite\<close>); the negative
  zero is not told from zero. A request body is the value \<open>request.json()\<close> returned:
  an absent property reads as \<open>JUndefined\<close>, and a number in it is the double of the
  decimal in the text. Strings are lists of 8-bit code units.
\<close>

datatype jsnum = Fin rat | PInf | NInf | NaN

datatype json =
    JUndefined
  | JNull
  | JBool bool
  | JNum jsnum
  | JStr string
  | JArr "json list"
  | JObj "(string \<times> json) list"

subsection \<open>Doubles\<close>

text \<open>
  \<open>double x\<close> is the double nearest to the exact value \<open>x\<close>, a tie going to the
  even significand: what the arithmetic of JavaScript returns for an exact result
  \<open>x\<close>, what \<open>JSON.parse\<close> makes of a decimal, and what \<open>Number(decimal)\<close> makes
  of a \<open>Prisma.Decimal\<close>. Doubles around \<open>x\<close> are the multiples of \<open>2 ^ e\<close> with
  \<open>e\<close> the exponent of \<open>x\<close> less 52 and at least -1074; a result of \<open>2 ^ 1024\<close> or
  more is infinite.
\<close>

definition pow2 :: "int \<Rightarrow> rat" where
  "pow2 e = (if 0 \<le> e then 2 ^ nat e else 1 / 2 ^ nat (- e))"

text \<open>The exponent of a positive rational: the \<open>k\<close> with \<open>2 ^ k \<le> x < 2 ^ (k + 1)\<close>.\<close>

definition floor_log2 :: "rat \<Rightarrow> int" where
  "floor_log2 x =
     (let (p, q) = quotient_of x; k = bitlen p - bitlen q
      in if pow2 k \<le> x then k else k - 1)"

definition round_half_even :: "rat \<Rightarrow> int" where
  "round_half_even r =
     (let f = \<lfloor>r\<rfloor>; d = r - of_int f
      in if d < 1 / 2 then f else if 1 / 2 < d then f + 1 else if even f then f else f + 1)"

definition double :: "rat \<Rightarrow> jsnum" where
  "double x =
     (if x = 0 then Fin 0
      else
        let e = max (floor_log2 \<bar>x\<bar> - 52) (- 1074);
            m = round_half_even (x / pow2 e)
        in if 971 < e \<or> (e = 971 \<and> 2 ^ 53 \<le> \<bar>m\<bar>) then (if 0 < x then PInf else NInf)
           else Fin (of_int m * pow2 e))"

subsection \<open>Values\<close>

text \<open>Truthiness, as \<open>!value\<close> tests it.\<close>

fun truthy :: "json \<Rightarrow> bool" where
  "truthy JUndefined = False"
| "truthy JNull = False"
| "truthy (JBool b) = b"
| "truthy (JNum (Fin x)) = (x \<noteq> 0)"
| "truthy (JNum NaN) = False"
| "truthy (JNum PInf) = True"
| "truthy (JNum NInf) = True"
| "truthy (JStr s) = (s \<noteq> [])"
| "truthy (JArr xs) = True"
| "truthy (JObj kvs) = True"

text \<open>\<open>typeof v === 'object'\<close>: objects, arrays and \<open>null\<close>.\<close>

fun typeof_object :: "json \<Rightarrow> bool" where
  "typeof_object JNull = True"
| "typeof_object (JArr xs) = True"
| "typeof_object (JObj kvs) = True"
| "typeof_object v = False"

text \<open>
  Property access \<open>v.k\<close> for the property names the route reads; none of them is a
  property of an array, a string or a number.
\<close>

fun get_prop :: "json \<Rightarrow> string \<Rightarrow> json" where
  "get_prop (JObj kvs) k = (case map_of kvs k of Some v \<Rightarrow> v | None \<Rightarrow> JUndefined)"
| "get_prop v k = JUndefined"

text \<open>\<open>a ?? b\<close>\<close>

fun nullish :: "json \<Rightarrow> json \<Rightarrow> json" where
  "nullish JUndefined d = d"
| "nullish JNull d = d"
| "nullish v d = v"

text \<open>
  What the handler takes from its surroundings: the two conversions of the JavaScript
  runtime that are not written out here (the text of a number, the number of a text),
  the values of the Prisma enum
  \<open>PaymentMethod\<close> (the Prisma schema is not part of the sources), the clock, the
  identifiers and the creation time the database assigns, and the failures of the
  persistence layer that do not depend on the modelled tables: the error Prisma throws
  for an argument of the wrong type, the error of a value too large for its column,
  any other failure of \<open>sale.create\<close> (a foreign key, the connection), and the
  transaction's timeout, given as the number of the first operation that finds the
  30 seconds elapsed.
\<close>

record exn =
  message :: string
  code :: "string option"
  target :: "string list option"

record runtime =
  Number_toString :: "jsnum \<Rightarrow> string"
  StringToNumber :: "string \<Rightarrow> jsnum"
  PaymentMethod_values :: "string list"
  Date_now :: nat
  new_sale_id :: string
  new_item_id :: "nat \<Rightarrow> string"
  db_now :: nat
  prisma_validation_error :: exn
  numeric_overflow_error :: exn
  create_fault :: "exn option"
  timeout_at :: "nat option"
  timeout_error :: exn

text \<open>
  \<open>String(v)\<close> and \<open>Number(v)\<close>. A value that came from JSON holds no function, so an
  object with a property \<open>toString\<close> of its own has no way to a primitive: both
  coercions throw a TypeError. Any other object is \<open>[object Object]\<close> and not a number;
  an array is its elements joined by commas, \<open>null\<close> and \<open>undefined\<close> counting as
  empty.
\<close>

definition TypeError :: exn where
  "TypeError = \<lparr> message = ''Cannot convert object to primitive value'', code = None, target = None \<rparr>"

fun String_js :: "runtime \<Rightarrow> json \<Rightarrow> exn + string"
  and join_elements :: "runtime \<Rightarrow> json list \<Rightarrow> exn + string" where
  "String_js rt (JStr s) = Inr s"
| "String_js rt JUndefined = Inr ''undefined''"
| "String_js rt JNull = Inr ''null''"
| "String_js rt (JBool b) = Inr (if b then ''true'' else ''false'')"
| "String_js rt (JNum n) = Inr (Number_toString rt n)"
| "String_js rt (JObj kvs) =
     (if map_of kvs ''toString'' \<noteq> None then Inl TypeError else Inr ''[object Object]'')"
| "String_js rt (JArr xs) = join_elements rt xs"
| "join_elements rt [] = Inr []"
| "join_elements rt (x # xs) =
     (case (if x = JNull \<or> x = JUndefined then Inr [] else String_js rt x) of
        Inl e \<Rightarrow> Inl e
      | Inr s \<Rightarrow>
          if xs = [] then Inr s
          else (case join_elements rt xs of
                  Inl e \<Rightarrow> Inl e
                | Inr t \<Rightarrow> Inr (s @ '','' @ t)))"

fun Number_js :: "runtime \<Rightarrow> json \<Rightarrow> exn + jsnum" where
  "Number_js rt (JNum n) = Inr n"
| "Number_js rt JUndefined = Inr NaN"
| "Number_js rt JNull = Inr (Fin 0)"
| "Number_js rt (JBool b) = Inr (Fin (if b then 1 else 0))"
| "Number_js rt (JStr s) = Inr (StringToNumber rt s)"
| "Number_js rt (JObj kvs) =
     (if map_of kvs ''toString'' \<noteq> None then Inl TypeError else Inr NaN)"
| "Number_js rt (JArr xs) =
     (case join_elements rt xs of
        Inl e \<Rightarrow> Inl e
      | Inr s \<Rightarrow> Inr (StringToNumber rt s))"

text \<open>
  Comparison and arithmetic of numbers. Every comparison with \<open>NaN\<close> is false; a
  sum, a product and a quotient of finite numbers are the doubles of the exact
  results.
\<close>

fun js_lt :: "jsnum \<Rightarrow> jsnum \<Rightarrow> bool" where
  "js_lt (Fin a) (Fin b) = (a < b)"
| "js_lt NaN y = False"
| "js_lt x NaN = False"
| "js_lt PInf y = False"
| "js_lt x NInf = False"
| "js_lt NInf y = True"
| "js_lt x PInf = True"

fun js_le :: "jsnum \<Rightarrow> jsnum \<Rightarrow> bool" where
  "js_le (Fin a) (Fin b) = (a \<le> b)"
| "js_le NaN y = False"
| "js_le x NaN = False"
| "js_le NInf y = True"
| "js_le x PInf = True"
| "js_le PInf y = False"
| "js_le x NInf = False"

definition js_gt :: "jsnum \<Rightarrow> jsnum \<Rightarrow> bool" where
  "js_gt x y = js_lt y x"

fun js_neg :: "jsnum \<Rightarrow> jsnum" where
  "js_neg (Fin a) = Fin (- a)"
| "js_neg PInf = NInf"
| "js_neg NInf = PInf"
| "js_neg NaN = NaN"

fun js_add :: "jsnum \<Rightarrow> jsnum \<Rightarrow> jsnum" where
  "js_add (Fin a) (Fin b) = double (a + b)"
| "js_add NaN y = NaN"
| "js_add x NaN = NaN"
| "js_add PInf NInf = NaN"
| "js_add NInf PInf = NaN"
| "js_add PInf y = PInf"
| "js_add NInf y = NInf"
| "js_add x PInf = PInf"
| "js_add x NInf = NInf"

definition js_sub :: "jsnum \<Rightarrow> jsnum \<Rightarrow> jsnum" where
  "js_sub x y = js_add x (js_neg y)"

text \<open>The sign of an infinite product follows the signs; \<open>Infinity * 0\<close> is \<open>NaN\<close>.\<close>

definition signed_inf :: "rat \<Rightarrow> jsnum" where
  "signed_inf s = (if s = 0 then NaN else if 0 < s then PInf else NInf)"

fun js_mul :: "jsnum \<Rightarrow> jsnum \<Rightarrow> jsnum" where
  "js_mul (Fin a) (Fin b) = double (a * b)"
| "js_mul NaN y = NaN"
| "js_mul x NaN = NaN"
| "js_mul PInf (Fin b) = signed_inf b"
| "js_mul NInf (Fin b) = signed_inf (- b)"
| "js_mul (Fin a) PInf = signed_inf a"
| "js_mul (Fin a) NInf = signed_inf (- a)"
| "js_mul PInf PInf = PInf"
| "js_mul NInf NInf = PInf"
| "js_mul PInf NInf = NInf"
| "js_mul NInf PInf = NInf"

text \<open>A quotient by a positive number \<open>d\<close>, as the division by 100 is.\<close>

fun js_div :: "jsnum \<Rightarrow> rat \<Rightarrow> jsnum" where
  "js_div (Fin a) d = double (a / d)"
| "js_div v d = v"

text \<open>
  \<open>Math.round\<close> rounds to the nearest integer, a tie towards plus infinity: the floor
  of \<open>x + 1/2\<close>, which is what \<^const>\<open>round\<close> is in HOL. The result is exact: a double
  with a fraction is below \<open>2 ^ 52\<close>.
\<close>

fun Math_round :: "jsnum \<Rightarrow> jsnum" where
  "Math_round (Fin a) = Fin (of_int (round a))"
| "Math_round v = v"

fun isFinite :: "jsnum \<Rightarrow> bool" where
  "isFinite (Fin a) = True"
| "isFinite v = False"

fun isNaN :: "jsnum \<Rightarrow> bool" where
  "isNaN NaN = True"
| "isNaN v = False"

text \<open>Strings: decimal rendering of a natural number, as a template literal prints it.\<close>

definition digit_char :: "nat \<Rightarrow> char" where
  "digit_char d = ''0123456789'' ! d"

fun show_nat :: "nat \<Rightarrow> string" where
  "show_nat n = (if n < 10 then [digit_char n] else show_nat (n div 10) @ [digit_char (n mod 10)])"

declare show_nat.simps [simp del]

text \<open>\<open>s.includes(t)\<close>\<close>

fun starts_with :: "string \<Rightarrow> string \<Rightarrow> bool" where
  "starts_with s [] = True"
| "starts_with [] (c # t) = False"
| "starts_with (d # s) (c # t) = (d = c \<and> starts_with s t)"

fun str_includes :: "string \<Rightarrow> string \<Rightarrow> bool" where
  "str_includes [] t = (t = [])"
| "str_includes (c # s) t = (starts_with (c # s) t \<or> str_includes s t)"

text \<open>\<open>s.toUpperCase()\<close> on the ASCII letters.\<close>

definition upper_char :: "char \<Rightarrow> char" where
  "upper_char c =
     (case map_of (zip ''abcdefghijklmnopqrstuvwxyz'' ''ABCDEFGHIJKLMNOPQRSTUVWXYZ'') c of
        Some u \<Rightarrow> u
      | None \<Rightarrow> c)"

definition toUpperCase :: "string \<Rightarrow> string" where
  "toUpperCase s = map upper_char s"

text \<open>\<open>s.trim()\<close>: white space and line terminators among the 8-bit code units.\<close>

definition is_space :: "char \<Rightarrow> bool" where
  "is_space c = (c \<in> set [CHR 0x09, CHR 0x0A, CHR 0x0B, CHR 0x0C, CHR 0x0D, CHR 0x20, CHR 0xA0])"

definition trim :: "string \<Rightarrow> string" where
  "trim s = rev (dropWhile is_space (rev (dropWhile is_space s)))"

text \<open>\<open>xs.join(', ')\<close>\<close>

fun join_comma :: "string list \<Rightarrow> string" where
  "join_comma [] = []"
| "join_comma [x] = x"
| "join_comma (x # y # ys) = x @ '', '' @ join_comma (y # ys)"

text \<open>\<open>Array.from(new Set(xs))\<close>: the first occurrence of each value, in order.\<close>

definition uniq :: "'a list \<Rightarrow> 'a list" where
  "uniq xs = rev (remdups (rev xs))"

section \<open>Persisted data\<close>

text \<open>
  The tables the route reads and writes. \<open>Stock\<close> is kept by the id of its product
  (one to one); \<open>Stock.quantity\<close> and \<open>SaleItem.quantity\<close> are \<open>DECIMAL(10,2)\<close> columns
  (migration \<open>fractional_quantities\<close>). The other decimal columns keep the decimal
  they are given: the Prisma schema, which has their precision, is not part of the
  sources.
\<close>

record product =
  p_id :: string
  p_name :: string
  p_sku :: string
  p_price :: rat

record user =
  u_id :: string
  u_fullName :: "string option"
  u_username :: "string option"

record saleItem =
  si_id :: string
  si_productId :: string
  si_quantity :: rat
  si_price :: rat
  si_total :: rat

record sale =
  s_id :: string
  s_receiptNumber :: string
  s_userId :: string
  s_paymentMethod :: string
  s_subtotal :: rat
  s_discount :: "rat option"
  s_totalAmount :: rat
  s_createdAt :: nat
  s_items :: "saleItem list"

record db =
  products :: "product list"
  stocks :: "string \<rightharpoonup> rat"
  users :: "user list"
  sales :: "sale list"

text \<open>Lookup by primary key.\<close>

definition find_product :: "db \<Rightarrow> string \<Rightarrow> product option" where
  "find_product d k = find (\<lambda>p. p_id p = k) (products d)"

definition find_user :: "db \<Rightarrow> string \<Rightarrow> user option" where
  "find_user d k = find (\<lambda>u. u_id u = k) (users d)"

text \<open>A sale read with \<open>saleInclude\<close>: its attendant and the product of each item.\<close>

record saleItemWithProduct =
  ip_item :: saleItem
  ip_product :: "product option"

record saleWithRelations =
  sr_sale :: sale
  sr_attendant :: "user option"
  sr_items :: "saleItemWithProduct list"

definition with_relations :: "db \<Rightarrow> sale \<Rightarrow> saleWithRelations" where
  "with_relations d s =
     \<lparr> sr_sale = s,
       sr_attendant = find_user d (s_userId s),
       sr_items = map (\<lambda>i. \<lparr> ip_item = i, ip_product = find_product d (si_productId i) \<rparr>) (s_items s) \<rparr>"

section \<open>formatSale\<close>

record formattedAttendant =
  fa_id :: string
  fa_fullName :: "string option"
  fa_username :: "string option"

record formattedProduct =
  fp_id :: string
  fp_name :: string
  fp_sku :: string

record formattedItem =
  fi_id :: string
  fi_productId :: string
  fi_quantity :: rat
  fi_price :: rat
  fi_total :: rat
  fi_product :: "formattedProduct option"

record formattedSale =
  f_id :: string
  f_receiptNumber :: string
  f_userId :: string
  f_paymentMethod :: string
  f_subtotal :: rat
  f_discount :: rat
  f_totalAmount :: rat
  f_createdAt :: nat
  f_attendant :: "formattedAttendant option"
  f_items :: "formattedItem list"

definition formatItem :: "saleItemWithProduct \<Rightarrow> formattedItem" where
  "formatItem item =
     \<lparr> fi_id = si_id (ip_item item),
       fi_productId = si_productId (ip_item item),
       fi_quantity = si_quantity (ip_item item),
       fi_price = si_price (ip_item item),
       fi_total = si_total (ip_item item),
       fi_product =
         (case ip_product item of
            Some p \<Rightarrow> Some \<lparr> fp_id = p_id p, fp_name = p_name p, fp_sku = p_sku p \<rparr>
          | None \<Rightarrow> None) \<rparr>"

definition formatSale :: "saleWithRelations \<Rightarrow> formattedSale" where
  "formatSale sale =
     \<lparr> f_id = s_id (sr_sale sale),
       f_receiptNumber = s_receiptNumber (sr_sale sale),
       f_userId = s_userId (sr_sale sale),
       f_paymentMethod = s_paymentMethod (sr_sale sale),
       f_subtotal = s_subtotal (sr_sale sale),
       f_discount = (case s_discount (sr_sale sale) of Some d \<Rightarrow> d | None \<Rightarrow> 0),
       f_totalAmount = s_totalAmount (sr_sale sale),
       f_createdAt = s_createdAt (sr_sale sale),
       f_attendant =
         (case sr_attendant sale of
            Some a \<Rightarrow> Some \<lparr> fa_id = u_id a, fa_fullName = u_fullName a, fa_username = u_username a \<rparr>
          | None \<Rightarrow> None),
       f_items = map formatItem (sr_items sale) \<rparr>"

text \<open>
  The recent-activity builder of the dashboard route is where an attendant is turned
  into one line of text:
  \<open>sale.attendant?.fullName ?? sale.attendant?.username ?? 'Walk-in customer'\<close>.
\<close>

definition activity_context :: "user option \<Rightarrow> string" where
  "activity_context attendant =
     (case (case attendant of Some a \<Rightarrow> u_fullName a | None \<Rightarrow> None) of
        Some n \<Rightarrow> n
      | None \<Rightarrow>
          (case (case attendant of Some a \<Rightarrow> u_username a | None \<Rightarrow> None) of
             Some n \<Rightarrow> n
           | None \<Rightarrow> ''Walk-in customer''))"

section \<open>The sale route: POST\<close>

datatype resp_body = ErrorBody string | SaleBody formattedSale

record response =
  status :: nat
  body :: resp_body

text \<open>\<open>NextResponse.json(body, { status })\<close>\<close>

definition json_response :: "resp_body \<Rightarrow> nat \<Rightarrow> response" where
  "json_response b s = \<lparr> status = s, body = b \<rparr>"

text \<open>\<open>new Error(message)\<close>\<close>

definition Error :: "string \<Rightarrow> exn" where
  "Error msg = \<lparr> message = msg, code = None, target = None \<rparr>"

definition toCents :: "jsnum \<Rightarrow> jsnum" where
  "toCents v = Math_round (js_mul v (Fin 100))"

definition centsToAmount :: "jsnum \<Rightarrow> jsnum" where
  "centsToAmount cents = js_div cents 100"

subsection \<open>The catch block\<close>

definition POST_catch :: "exn \<Rightarrow> response" where
  "POST_catch error =
     (if message error \<noteq> [] \<and>
         (str_includes (message error) ''Insufficient stock'' \<or>
          str_includes (message error) ''no stock record'')
      then json_response (ErrorBody (message error)) 400
      else
        json_response
          (ErrorBody
             (if code error = Some ''P2002'' \<and>
                 (case target error of Some t \<Rightarrow> ''receiptNumber'' \<in> set t | None \<Rightarrow> False)
              then ''Receipt number must be unique.''
              else ''Unable to create sale.''))
          500)"

subsection \<open>Validation of the request\<close>

record sanitizedItem =
  sp_productId :: json
  sp_quantity :: jsnum
  sp_priceOverride :: "jsnum option"

record validated =
  v_receiptNumber :: json
  v_userId :: json
  v_paymentMethod :: string
  v_items :: "sanitizedItem list"
  v_discount :: jsnum

text \<open>
  An error thrown anywhere in the handler is caught by its catch block: a coercion
  that throws ends the request with the response of \<^const>\<open>POST_catch\<close>.
\<close>

text \<open>The body of the loop over \<open>items\<close>; \<open>index\<close> counts from 0 and messages print \<open>index + 1\<close>.\<close>

definition sanitizeItem :: "runtime \<Rightarrow> nat \<Rightarrow> json \<Rightarrow> response + sanitizedItem" where
  "sanitizeItem rt index item =
     (if \<not> truthy item \<or> \<not> typeof_object item then
        Inl (json_response (ErrorBody (''Item at position '' @ show_nat (index + 1) @ '' is invalid.'')) 400)
      else if \<not> truthy (get_prop item ''productId'') then
        Inl (json_response (ErrorBody (''Item '' @ show_nat (index + 1) @ '' is missing productId.'')) 400)
      else
        (case Number_js rt (get_prop item ''quantity'') of
           Inl e \<Rightarrow> Inl (POST_catch e)
         | Inr quantity \<Rightarrow>
             if \<not> isFinite quantity \<or> js_le quantity (Fin 0) then
               Inl (json_response (ErrorBody (''Item '' @ show_nat (index + 1) @ '' quantity must be a positive number.'')) 400)
             else if get_prop item ''price'' \<noteq> JUndefined then
               (case Number_js rt (get_prop item ''price'') of
                  Inl e \<Rightarrow> Inl (POST_catch e)
                | Inr priceOverride \<Rightarrow>
                    if \<not> isFinite priceOverride \<or> js_lt priceOverride (Fin 0) then
                      Inl (json_response (ErrorBody (''Item '' @ show_nat (index + 1) @ '' price must be a positive number.'')) 400)
                    else
                      Inr \<lparr> sp_productId = get_prop item ''productId'',
                            sp_quantity = quantity,
                            sp_priceOverride = Some priceOverride \<rparr>)
             else
               Inr \<lparr> sp_productId = get_prop item ''productId'',
                     sp_quantity = quantity,
                     sp_priceOverride = None \<rparr>))"

text \<open>The loop: the first item that fails ends it.\<close>

fun sanitizeItems :: "runtime \<Rightarrow> nat \<Rightarrow> json list \<Rightarrow> response + sanitizedItem list" where
  "sanitizeItems rt index [] = Inr []"
| "sanitizeItems rt index (item # rest) =
     (case sanitizeItem rt index item of
        Inl r \<Rightarrow> Inl r
      | Inr sanitizedItem \<Rightarrow>
          (case sanitizeItems rt (index + 1) rest of
             Inl r \<Rightarrow> Inl r
           | Inr sanitized \<Rightarrow> Inr (sanitizedItem # sanitized)))"

definition POST_validate :: "runtime \<Rightarrow> json \<Rightarrow> response + validated" where
  "POST_validate rt request_json =
     (let body = nullish request_json (JObj []);
          receiptNumber = get_prop body ''receiptNumber'';
          userId = get_prop body ''userId'';
          paymentMethod = get_prop body ''paymentMethod'';
          items = get_prop body ''items'';
          discount = (case get_prop body ''discount'' of JUndefined \<Rightarrow> JNum (Fin 0) | d \<Rightarrow> d)
      in
      if \<not> truthy userId then
        Inl (json_response (ErrorBody ''userId is required.'') 400)
      else
        (case String_js rt paymentMethod of
           Inl e \<Rightarrow> Inl (POST_catch e)
         | Inr paymentMethodString \<Rightarrow>
             let normalizedPaymentMethod = toUpperCase paymentMethodString in
             if \<not> truthy paymentMethod \<or> normalizedPaymentMethod \<notin> set (PaymentMethod_values rt) then
               Inl (json_response (ErrorBody ''paymentMethod is invalid.'') 400)
             else
               (case items of
                  JArr its \<Rightarrow>
                    if its = [] then
                      Inl (json_response (ErrorBody ''At least one sale item is required.'') 400)
                    else
                      (case Number_js rt (nullish discount (JNum (Fin 0))) of
                         Inl e \<Rightarrow> Inl (POST_catch e)
                       | Inr parsedDiscount \<Rightarrow>
                           if isNaN parsedDiscount \<or> js_lt parsedDiscount (Fin 0) then
                             Inl (json_response (ErrorBody ''discount must be a positive number.'') 400)
                           else
                             (case sanitizeItems rt 0 its of
                                Inl r \<Rightarrow> Inl r
                              | Inr sanitizedItems \<Rightarrow>
                                  Inr \<lparr> v_receiptNumber = receiptNumber,
                                        v_userId = userId,
                                        v_paymentMethod = normalizedPaymentMethod,
                                        v_items = sanitizedItems,
                                        v_discount = parsedDiscount \<rparr>))
                | _ \<Rightarrow> Inl (json_response (ErrorBody ''At least one sale item is required.'') 400))))"

subsection \<open>Reading the products and pricing the lines\<close>

record productWithStock =
  pw_id :: string
  pw_name :: string
  pw_price :: rat
  pw_stock :: "rat option"

text \<open>
  Prisma checks its arguments against the schema before it queries: an identifier that
  is not a string makes the call throw.
\<close>

fun id_string :: "json \<Rightarrow> string option" where
  "id_string (JStr s) = Some s"
| "id_string v = None"

definition product_findMany :: "runtime \<Rightarrow> db \<Rightarrow> json list \<Rightarrow> exn + productWithStock list" where
  "product_findMany rt d productIds =
     (if list_all (\<lambda>i. id_string i \<noteq> None) productIds then
        Inr (concat (map (\<lambda>i.
               case id_string i of
                 None \<Rightarrow> []
               | Some s \<Rightarrow>
                   (case find_product d s of
                      None \<Rightarrow> []
                    | Some p \<Rightarrow>
                        [\<lparr> pw_id = p_id p, pw_name = p_name p, pw_price = p_price p,
                           pw_stock = stocks d s \<rparr>])) productIds))
      else Inl (prisma_validation_error rt))"

definition productMap_get :: "(string \<rightharpoonup> productWithStock) \<Rightarrow> json \<Rightarrow> productWithStock option" where
  "productMap_get productMap k = (case id_string k of Some s \<Rightarrow> productMap s | None \<Rightarrow> None)"

record itemPayload =
  pl_productId :: json
  pl_quantity :: jsnum
  pl_price :: jsnum
  pl_total :: jsnum

text \<open>
  \<open>item.priceOverride ?? defaultPrice\<close>, the unit price of a line; the default is
  \<open>Number(product.price)\<close>.
\<close>

definition unitPrice_of :: "productWithStock \<Rightarrow> sanitizedItem \<Rightarrow> jsnum" where
  "unitPrice_of product item =
     (let defaultPrice = double (pw_price product) in
      case sp_priceOverride item of Some p \<Rightarrow> p | None \<Rightarrow> defaultPrice)"

text \<open>
  The body of \<open>sanitizedItems.map\<close> for one item: the payload of the line, and its
  total in cents, which the caller adds to \<open>subtotalInCents\<close>.
\<close>

definition priceItem ::
  "runtime \<Rightarrow> (string \<rightharpoonup> productWithStock) \<Rightarrow> sanitizedItem \<Rightarrow> exn + (itemPayload \<times> jsnum)" where
  "priceItem rt productMap item =
     (case productMap_get productMap (sp_productId item) of
        None \<Rightarrow> Inl (Error ''Product missing during sale creation.'')
      | Some product \<Rightarrow>
          (case pw_stock product of
             None \<Rightarrow> Inl (Error (''Product '' @ [CHR 0x22] @ pw_name product @ [CHR 0x22] @ '' has no stock record.''))
           | Some stock_quantity \<Rightarrow>
               let available = double stock_quantity in
               if js_gt (sp_quantity item) available then
                 Inl (Error (''Insufficient stock for '' @ pw_name product @ ''. Available: '' @
                             Number_toString rt available))
               else
                 let unitPrice = unitPrice_of product item in
                 if \<not> isFinite unitPrice \<or> js_le unitPrice (Fin 0) then
                   Inl (Error (''Invalid price for '' @ pw_name product @ ''.''))
                 else
                   let priceInCents = toCents unitPrice;
                       lineTotalInCents = Math_round (js_mul priceInCents (sp_quantity item)) in
                   Inr (\<lparr> pl_productId = sp_productId item,
                          pl_quantity = sp_quantity item,
                          pl_price = centsToAmount priceInCents,
                          pl_total = centsToAmount lineTotalInCents \<rparr>,
                        lineTotalInCents)))"

fun mapItems ::
  "runtime \<Rightarrow> (string \<rightharpoonup> productWithStock) \<Rightarrow> jsnum \<Rightarrow> sanitizedItem list
     \<Rightarrow> exn + (itemPayload list \<times> jsnum)" where
  "mapItems rt productMap subtotalInCents [] = Inr ([], subtotalInCents)"
| "mapItems rt productMap subtotalInCents (item # rest) =
     (case priceItem rt productMap item of
        Inl e \<Rightarrow> Inl e
      | Inr (payload, lineTotalInCents) \<Rightarrow>
          (case mapItems rt productMap (js_add subtotalInCents lineTotalInCents) rest of
             Inl e \<Rightarrow> Inl e
           | Inr (payloads, summed) \<Rightarrow> Inr (payload # payloads, summed)))"

text \<open>
  What the handler does between validation and the transaction; it only reads the
  database. First the products are read and the lines priced.
\<close>

definition POST_items ::
  "runtime \<Rightarrow> db \<Rightarrow> validated \<Rightarrow> response + (itemPayload list \<times> jsnum)" where
  "POST_items rt d v =
     (let productIds = uniq (map sp_productId (v_items v)) in
      case product_findMany rt d productIds of
        Inl e \<Rightarrow> Inl (POST_catch e)
      | Inr found \<Rightarrow>
          if length found \<noteq> length productIds then
            let missing = filter (\<lambda>i. \<not> list_ex (\<lambda>p. JStr (pw_id p) = i) found) productIds in
            Inl (json_response
                   (ErrorBody (''Products not found: '' @
                      join_comma (map (\<lambda>i. case id_string i of Some s \<Rightarrow> s | None \<Rightarrow> []) missing))) 404)
          else
            let productMap = map_of (rev (map (\<lambda>p. (pw_id p, p)) found)) in
            (case mapItems rt productMap (Fin 0) (v_items v) of
               Inl e \<Rightarrow> Inl (POST_catch e)
             | Inr (itemsPayload, subtotalInCents) \<Rightarrow> Inr (itemsPayload, subtotalInCents)))"

text \<open>Then the discount is compared with the subtotal, in cents.\<close>

definition POST_prepare ::
  "runtime \<Rightarrow> db \<Rightarrow> validated \<Rightarrow> response + (itemPayload list \<times> jsnum \<times> jsnum)" where
  "POST_prepare rt d v =
     (case POST_items rt d v of
        Inl r \<Rightarrow> Inl r
      | Inr (itemsPayload, subtotalInCents) \<Rightarrow>
          let discountInCents = toCents (v_discount v) in
          if js_gt discountInCents subtotalInCents then
            Inl (json_response (ErrorBody ''Discount cannot exceed subtotal.'') 400)
          else Inr (itemsPayload, subtotalInCents, discountInCents))"

subsection \<open>The transaction\<close>

text \<open>
  A \<open>DECIMAL(10,2)\<close> column rounds what it is given to two decimals, a tie away from
  zero, and refuses a value of more than eight integer digits.
\<close>

definition round_half_away :: "rat \<Rightarrow> int" where
  "round_half_away x = (if 0 \<le> x then \<lfloor>x + 1 / 2\<rfloor> else - \<lfloor>- x + 1 / 2\<rfloor>)"

definition decimal_10_2 :: "rat \<Rightarrow> rat option" where
  "decimal_10_2 x =
     (let c = round_half_away (x * 100) in
      if \<bar>c\<bar> < 10 ^ 10 then Some (of_int c / 100) else None)"

text \<open>
  A number is handed to Prisma as the decimal of its text, the shortest decimal that
  reads back as the same double. A double that is the double of a decimal of three
  places has that decimal as its text: below \<open>2 ^ 42\<close> doubles are less than a
  thousandth apart, so that no other decimal that short reads back as the same double.
  These are the texts of the amounts, which are cents divided by 100. The text of any
  other double has more than three decimals and is left as the double; a column of
  two decimals rounds it as it rounds the double.
\<close>

definition written_decimal :: "rat \<Rightarrow> rat" where
  "written_decimal x =
     (let t = of_int (round (x * 1000)) / 1000 in if double t = Fin x then t else x)"

text \<open>
  Operations of the transaction client are numbered in the order the callback issues
  them; an operation that finds the timeout elapsed throws.
\<close>

definition expired :: "runtime \<Rightarrow> nat \<Rightarrow> bool" where
  "expired rt n = (case timeout_at rt of Some k \<Rightarrow> k \<le> n | None \<Rightarrow> False)"

definition stock_findUnique :: "runtime \<Rightarrow> db \<Rightarrow> nat \<Rightarrow> json \<Rightarrow> exn + rat option" where
  "stock_findUnique rt d n productId =
     (if expired rt n then Inl (timeout_error rt)
      else case id_string productId of
             None \<Rightarrow> Inl (prisma_validation_error rt)
           | Some s \<Rightarrow> Inr (stocks d s))"

text \<open>The first loop of the callback: the stock of every line is read again.\<close>

fun recheck :: "runtime \<Rightarrow> db \<Rightarrow> nat \<Rightarrow> itemPayload list \<Rightarrow> exn + unit" where
  "recheck rt d n [] = Inr ()"
| "recheck rt d n (item # rest) =
     (case stock_findUnique rt d n (pl_productId item) of
        Inl e \<Rightarrow> Inl e
      | Inr stock \<Rightarrow>
          if (case stock of None \<Rightarrow> True | Some q \<Rightarrow> js_lt (double q) (pl_quantity item)) then
            Inl (Error ''Stock levels changed. Please refresh and try again.'')
          else recheck rt d (n + 1) rest)"

definition resolveReceiptNumber :: "runtime \<Rightarrow> json \<Rightarrow> string" where
  "resolveReceiptNumber rt receiptNumber =
     (case receiptNumber of
        JStr s \<Rightarrow>
          if truthy receiptNumber \<and> 0 < length (trim s) then trim s
          else ''SAL-'' @ show_nat (Date_now rt)
      | _ \<Rightarrow> ''SAL-'' @ show_nat (Date_now rt))"

text \<open>
  Modelled from the spec: the Prisma schema is not part of the sources. The receipt
  number is unique across all sales; a second sale with a receipt number in use fails
  with Prisma's P2002 on \<open>receiptNumber\<close>, the error the catch block tests for.
\<close>

definition unique_violation :: exn where
  "unique_violation =
     \<lparr> message = ''Unique constraint failed on the fields: (receiptNumber)'',
       code = Some ''P2002'', target = Some [''receiptNumber''] \<rparr>"

definition record_not_found :: exn where
  "record_not_found =
     \<lparr> message = ''Record to update not found.'', code = Some ''P2025'', target = None \<rparr>"

text \<open>One \<open>SaleItem\<close> row of the nested create; \<open>k\<close> is its position.\<close>

definition create_item :: "runtime \<Rightarrow> nat \<Rightarrow> itemPayload \<Rightarrow> exn + saleItem" where
  "create_item rt k item =
     (case (id_string (pl_productId item), pl_quantity item, pl_price item, pl_total item) of
        (Some pid, Fin q, Fin p, Fin t) \<Rightarrow>
          (case decimal_10_2 (written_decimal q) of
             None \<Rightarrow> Inl (numeric_overflow_error rt)
           | Some q' \<Rightarrow>
               Inr \<lparr> si_id = new_item_id rt k, si_productId = pid, si_quantity = q',
                     si_price = written_decimal p, si_total = written_decimal t \<rparr>)
      | _ \<Rightarrow> Inl (prisma_validation_error rt))"

fun create_items :: "runtime \<Rightarrow> nat \<Rightarrow> itemPayload list \<Rightarrow> exn + saleItem list" where
  "create_items rt k [] = Inr []"
| "create_items rt k (item # rest) =
     (case create_item rt k item of
        Inl e \<Rightarrow> Inl e
      | Inr row \<Rightarrow>
          (case create_items rt (k + 1) rest of
             Inl e \<Rightarrow> Inl e
           | Inr rows \<Rightarrow> Inr (row # rows)))"

text \<open>
  \<open>tx.sale.create\<close> with \<open>include: saleInclude\<close>: the sale and its items in one
  write, returned with the attendant and the products.
\<close>

definition sale_create ::
  "runtime \<Rightarrow> db \<Rightarrow> nat \<Rightarrow> string \<Rightarrow> json \<Rightarrow> jsnum \<Rightarrow> jsnum \<Rightarrow> jsnum \<Rightarrow> string
     \<Rightarrow> itemPayload list \<Rightarrow> (exn + saleWithRelations) \<times> db" where
  "sale_create rt d n receiptNumber userId subtotal discount totalAmount paymentMethod items =
     (if expired rt n then (Inl (timeout_error rt), d)
      else
        case (id_string userId, subtotal, discount, totalAmount) of
          (Some uid, Fin sub, Fin disc, Fin tot) \<Rightarrow>
            (case create_items rt 0 items of
               Inl e \<Rightarrow> (Inl e, d)
             | Inr rows \<Rightarrow>
                 if receiptNumber \<in> set (map s_receiptNumber (sales d)) then
                   (Inl unique_violation, d)
                 else
                   (case create_fault rt of
                      Some e \<Rightarrow> (Inl e, d)
                    | None \<Rightarrow>
                        let created =
                              \<lparr> s_id = new_sale_id rt, s_receiptNumber = receiptNumber,
                                s_userId = uid, s_paymentMethod = paymentMethod,
                                s_subtotal = written_decimal sub,
                                s_discount = Some (written_decimal disc),
                                s_totalAmount = written_decimal tot, s_createdAt = db_now rt,
                                s_items = rows \<rparr>;
                            d' = d\<lparr> sales := sales d @ [created] \<rparr>
                        in (Inr (with_relations d' created), d')))
        | _ \<Rightarrow> (Inl (prisma_validation_error rt), d))"

text \<open>\<open>tx.stock.update\<close> with \<open>quantity: { decrement: ... }\<close>\<close>

definition stock_update :: "runtime \<Rightarrow> db \<Rightarrow> nat \<Rightarrow> json \<Rightarrow> jsnum \<Rightarrow> (exn + unit) \<times> db" where
  "stock_update rt d n productId quantity =
     (if expired rt n then (Inl (timeout_error rt), d)
      else
        case (id_string productId, quantity) of
          (Some s, Fin q) \<Rightarrow>
            (case stocks d s of
               None \<Rightarrow> (Inl record_not_found, d)
             | Some current \<Rightarrow>
                 (case decimal_10_2 (current - written_decimal q) of
                    None \<Rightarrow> (Inl (numeric_overflow_error rt), d)
                  | Some decremented \<Rightarrow> (Inr (), d\<lparr> stocks := (stocks d)(s \<mapsto> decremented) \<rparr>)))
        | _ \<Rightarrow> (Inl (prisma_validation_error rt), d))"

text \<open>
  \<open>Promise.all\<close> over the updates of all lines: the transaction's connection runs
  them one after the other.
\<close>

fun update_all :: "runtime \<Rightarrow> db \<Rightarrow> nat \<Rightarrow> itemPayload list \<Rightarrow> (exn + unit) \<times> db" where
  "update_all rt d n [] = (Inr (), d)"
| "update_all rt d n (item # rest) =
     (case stock_update rt d n (pl_productId item) (pl_quantity item) of
        (Inl e, d') \<Rightarrow> (Inl e, d')
      | (Inr u, d') \<Rightarrow> update_all rt d' (n + 1) rest)"

text \<open>The callback given to \<open>prisma.$transaction\<close>.\<close>

definition sale_tx ::
  "runtime \<Rightarrow> validated \<Rightarrow> itemPayload list \<Rightarrow> jsnum \<Rightarrow> jsnum \<Rightarrow> db
     \<Rightarrow> (exn + saleWithRelations) \<times> db" where
  "sale_tx rt v itemsPayload subtotalInCents discountInCents d =
     (case recheck rt d 0 itemsPayload of
        Inl e \<Rightarrow> (Inl e, d)
      | Inr u \<Rightarrow>
          (case sale_create rt d (length itemsPayload)
                  (resolveReceiptNumber rt (v_receiptNumber v))
                  (v_userId v)
                  (centsToAmount subtotalInCents)
                  (centsToAmount discountInCents)
                  (centsToAmount (js_sub subtotalInCents discountInCents))
                  (v_paymentMethod v)
                  itemsPayload of
             (Inl e, d1) \<Rightarrow> (Inl e, d1)
           | (Inr createdSale, d1) \<Rightarrow>
               (case update_all rt d1 (length itemsPayload + 1) itemsPayload of
                  (Inl e, d2) \<Rightarrow> (Inl e, d2)
                | (Inr u', d2) \<Rightarrow> (Inr createdSale, d2))))"

text \<open>
  \<open>prisma.$transaction(callback, { timeout: 30000 })\<close>: the writes of the callback are
  kept when it returns and the commit comes before the timeout; when the callback
  throws or the timeout has elapsed, the database is left as it was and the error is
  thrown to the caller. \<open>ops\<close> is the number of operations the callback issues.
\<close>

definition transaction ::
  "runtime \<Rightarrow> nat \<Rightarrow> (db \<Rightarrow> (exn + 'a) \<times> db) \<Rightarrow> db \<Rightarrow> (exn + 'a) \<times> db" where
  "transaction rt ops callback d =
     (case callback d of
        (Inl e, d') \<Rightarrow> (Inl e, d)
      | (Inr r, d') \<Rightarrow> if expired rt ops then (Inl (timeout_error rt), d) else (Inr r, d'))"

text \<open>The rest of the handler: the transaction, and the response for its outcome.\<close>

definition POST_commit ::
  "runtime \<Rightarrow> validated \<Rightarrow> itemPayload list \<Rightarrow> jsnum \<Rightarrow> jsnum \<Rightarrow> db \<Rightarrow> response \<times> db" where
  "POST_commit rt v itemsPayload subtotalInCents discountInCents d =
     (case transaction rt (2 * length itemsPayload + 1)
             (sale_tx rt v itemsPayload subtotalInCents discountInCents) d of
        (Inl e, d') \<Rightarrow> (POST_catch e, d')
      | (Inr sale, d') \<Rightarrow> (json_response (SaleBody (formatSale sale)) 201, d'))"

text \<open>
  The handler, run against one state of the database. A request that another request
  overtakes between its reads and its transaction is \<^const>\<open>POST_prepare\<close> on the
  earlier state followed by \<^const>\<open>POST_commit\<close> on the later one.
\<close>

definition POST :: "runtime \<Rightarrow> db \<Rightarrow> json \<Rightarrow> response \<times> db" where
  "POST rt d request_json =
     (case POST_validate rt request_json of
        Inl r \<Rightarrow> (r, d)
      | Inr v \<Rightarrow>
          (case POST_prepare rt d v of
             Inl r \<Rightarrow> (r, d)
           | Inr (itemsPayload, subtotalInCents, discountInCents) \<Rightarrow>
               POST_commit rt v itemsPayload subtotalInCents discountInCents d))"

subsection \<open>Rows and lines\<close>

text \<open>
  How a row of \<open>SaleItem\<close> relates to the payload it is created from, and to the
  validated item and the product the payload was priced from.
\<close>

definition row_of_payload :: "itemPayload \<Rightarrow> saleItem \<Rightarrow> bool" where
  "row_of_payload item row =
     (pl_productId item = JStr (si_productId row) \<and>
      (\<exists>p. pl_price item = Fin p \<and> si_price row = written_decimal p) \<and>
      (\<exists>t. pl_total item = Fin t \<and> si_total row = written_decimal t) \<and>
      (\<exists>q. pl_quantity item = Fin q \<and>
           decimal_10_2 (written_decimal q) = Some (si_quantity row)))"

text \<open>
  The row of a validated item: its unit price \<open>u\<close> times 100 is the double \<open>w\<close>, whose
  rounding is the price in cents; that times the quantity is the double \<open>t\<close>, whose
  rounding is the line total in cents; the row has the texts of both divided by 100.
\<close>

definition row_of_item :: "(string \<rightharpoonup> productWithStock) \<Rightarrow> sanitizedItem \<Rightarrow> saleItem \<Rightarrow> bool" where
  "row_of_item productMap item row =
     (\<exists>product u w q t p l.
        sp_productId item = JStr (si_productId row) \<and>
        productMap (si_productId row) = Some product \<and>
        unitPrice_of product item = Fin u \<and>
        double (u * 100) = Fin w \<and>
        double (of_int (round w) / 100) = Fin p \<and>
        si_price row = written_decimal p \<and>
        sp_quantity item = Fin q \<and>
        double (of_int (round w) * q) = Fin t \<and>
        double (of_int (round t) / 100) = Fin l \<and>
        si_total row = written_decimal l)"

section \<open>Sample data\<close>

text \<open>
  One runtime, one database and a few requests, for the concrete instances below: a
  product P1 of catalog price 9.99 with 5 units in stock, and one attendant. The
  instances put no text where a number is read, and print no number but a whole one;
  the clock reads 1700. A number of a request is given by the decimal of its text and
  is the double of it, as \<open>JSON.parse\<close> reads it.
\<close>

definition rt0 :: runtime where
  "rt0 =
     \<lparr> Number_toString = (\<lambda>n. case n of Fin x \<Rightarrow> show_nat (nat \<lfloor>x\<rfloor>) | _ \<Rightarrow> ''NaN''),
       StringToNumber = (\<lambda>s. NaN),
       PaymentMethod_values = [''CASH'', ''MOBILE_MONEY'', ''CARD''],
       Date_now = 1700,
       new_sale_id = ''sale-1'',
       new_item_id = (\<lambda>k. ''item-'' @ show_nat k),
       db_now = 1701,
       prisma_validation_error = Error ''Invalid value provided.'',
       numeric_overflow_error = Error ''numeric field overflow'',
       create_fault = None,
       timeout_at = None,
       timeout_error = Error ''Transaction already closed: the timeout for this transaction was 30000 ms.'' \<rparr>"

definition db0 :: db where
  "db0 =
     \<lparr> products = [\<lparr> p_id = ''P1'', p_name = ''Rice'', p_sku = ''RICE-0001'', p_price = 999 / 100 \<rparr>],
       stocks = [''P1'' \<mapsto> 5],
       users = [\<lparr> u_id = ''u1'', u_fullName = Some ''Ama Mensah'', u_username = Some ''ama'' \<rparr>],
       sales = [] \<rparr>"

definition line :: "string \<Rightarrow> rat \<Rightarrow> json" where
  "line p q = JObj [(''productId'', JStr p), (''quantity'', JNum (double q))]"

definition line_priced :: "string \<Rightarrow> rat \<Rightarrow> rat \<Rightarrow> json" where
  "line_priced p q c =
     JObj [(''productId'', JStr p), (''quantity'', JNum (double q)), (''price'', JNum (double c))]"

definition request :: "json list \<Rightarrow> json" where
  "request its =
     JObj [(''userId'', JStr ''u1''), (''paymentMethod'', JStr ''cash''), (''items'', JArr its)]"

definition request_discount :: "json list \<Rightarrow> json \<Rightarrow> json" where
  "request_discount its disc =
     JObj [(''userId'', JStr ''u1''), (''paymentMethod'', JStr ''cash''), (''items'', JArr its),
           (''discount'', disc)]"

definition amount :: "rat \<Rightarrow> json" where
  "amount x = JNum (double x)"

definition productMap0 :: "string \<rightharpoonup> productWithStock" where
  "productMap0 =
     [''P1'' \<mapsto> \<lparr> pw_id = ''P1'', pw_name = ''Rice'', pw_price = 999 / 100, pw_stock = Some 5 \<rparr>]"

definition item0 :: sanitizedItem where
  "item0 = \<lparr> sp_productId = JStr ''P1'', sp_quantity = Fin 2, sp_priceOverride = None \<rparr>"


definition sale0 :: sale where
  "sale0 =
     \<lparr> s_id = ''sale-0'', s_receiptNumber = ''R-1'', s_userId = ''u2'', s_paymentMethod = ''CASH'',
       s_subtotal = 10, s_discount = None, s_totalAmount = 10, s_createdAt = 1600,
       s_items = [] \<rparr>"

text \<open>
  A request of two lines (the second with a fractional quantity and an override of
  3.334) and a discount of 1.25, what validation and pricing make of it, and variants:
  a receipt number with blanks around it, a timeout that strikes at the first stock
  update, a second request in the same millisecond, the stock as another sale left it,
  and a request with an item without product and a negative discount. A second
  request has a line of 0.7 units at 0.45, whose product in doubles is
  31.499999999999996 cents, and a line at 1.005, which times 100 is
  100.49999999999999 in doubles: 31 cents and 100 cents, with discounts of 0.25, of
  the subtotal 1.31 and of one cent more.
\<close>

definition items1 :: "json list" where
  "items1 = [line ''P1'' 2, line_priced ''P1'' (3 / 2) (3334 / 1000)]"

definition v1 :: validated where
  "v1 = \<lparr> v_receiptNumber = JUndefined, v_userId = JStr ''u1'', v_paymentMethod = ''CASH'',
          v_items = [\<lparr> sp_productId = JStr ''P1'', sp_quantity = Fin 2, sp_priceOverride = None \<rparr>,
                     \<lparr> sp_productId = JStr ''P1'', sp_quantity = Fin (3 / 2),
                       sp_priceOverride = Some (double (3334 / 1000)) \<rparr>],
          v_discount = Fin (5 / 4) \<rparr>"

definition payload1 :: "itemPayload list" where
  "payload1 =
     [\<lparr> pl_productId = JStr ''P1'', pl_quantity = Fin 2, pl_price = double (999 / 100),
        pl_total = double (1998 / 100) \<rparr>,
      \<lparr> pl_productId = JStr ''P1'', pl_quantity = Fin (3 / 2), pl_price = double (333 / 100),
        pl_total = Fin 5 \<rparr>]"

definition rt_timeout :: runtime where
  "rt_timeout = rt0\<lparr> timeout_at := Some 3 \<rparr>"

definition items2 :: "json list" where
  "items2 = [line_priced ''P1'' (7 / 10) (45 / 100), line_priced ''P1'' 1 (1005 / 1000)]"

definition v2 :: validated where
  "v2 = \<lparr> v_receiptNumber = JUndefined, v_userId = JStr ''u1'', v_paymentMethod = ''CASH'',
          v_items = [\<lparr> sp_productId = JStr ''P1'', sp_quantity = double (7 / 10),
                       sp_priceOverride = Some (double (45 / 100)) \<rparr>,
                     \<lparr> sp_productId = JStr ''P1'', sp_quantity = Fin 1,
                       sp_priceOverride = Some (double (1005 / 1000)) \<rparr>],
          v_discount = double (25 / 100) \<rparr>"

definition payload2 :: "itemPayload list" where
  "payload2 =
     [\<lparr> pl_productId = JStr ''P1'', pl_quantity = double (7 / 10), pl_price = double (45 / 100),
        pl_total = double (31 / 100) \<rparr>,
      \<lparr> pl_productId = JStr ''P1'', pl_quantity = Fin 1, pl_price = Fin 1,
        pl_total = Fin 1 \<rparr>]"

definition v_full_discount :: validated where
  "v_full_discount = v2\<lparr> v_discount := double (131 / 100) \<rparr>"

definition v_over_discount :: validated where
  "v_over_discount = v2\<lparr> v_discount := double (132 / 100) \<rparr>"

definition v_receipt :: validated where
  "v_receipt = v1\<lparr> v_receiptNumber := JStr ''  R-77 '' \<rparr>"

definition rt_second :: runtime where
  "rt_second = rt0\<lparr> new_sale_id := ''sale-2'' \<rparr>"

definition db_sold :: db where
  "db_sold = db0\<lparr> stocks := [''P1'' \<mapsto> 1] \<rparr>"

definition request_two_errors :: json where
  "request_two_errors = request_discount [JObj [(''quantity'', JNum (Fin 1))]] (JNum (Fin (- 1)))"

text \<open>
  Two requests with an object where a text or a number is expected, as
  \<open>{"toString": 1}\<close> in the body: the payment method of the first, the discount of the
  second.
\<close>

definition request_payment_object :: json where
  "request_payment_object =
     JObj [(''userId'', JStr ''u1''), (''paymentMethod'', JObj [(''toString'', JNum (Fin 1))]),
           (''items'', JArr [line ''P1'' 1])]"

definition request_discount_object :: json where
  "request_discount_object = request_discount [line ''P1'' 1] (JObj [(''toString'', JNum (Fin 1))])"

section \<open>Doubles of whole numbers\<close>

lemma round_half_even_of_int: "round_half_even (of_int z) = z"
  by (simp add: round_half_even_def)

lemma floor_log2_of_int:
  assumes "0 < a"
  shows "floor_log2 (of_int a) = bitlen a - 1" and "0 \<le> bitlen a - 1"
    and "(2::int) ^ nat (bitlen a - 1) \<le> a"
proof -
  from bitlen_bounds [OF assms] show b: "(2::int) ^ nat (bitlen a - 1) \<le> a"
    by simp
  from assms have "bitlen a \<noteq> 0"
    by (simp add: bitlen_eq_zero_iff)
  with bitlen_nonneg [of a] show k: "0 \<le> bitlen a - 1"
    by simp
  have one: "bitlen 1 = 1"
    by (subst compute_bitlen) simp
  from b have "(of_int ((2::int) ^ nat (bitlen a - 1)) :: rat) \<le> of_int a"
    by (simp only: of_int_le_iff)
  then have "pow2 (bitlen a - 1) \<le> of_int a"
    using k by (simp add: pow2_def)
  then show "floor_log2 (of_int a) = bitlen a - 1"
    by (simp add: floor_log2_def quotient_of_int one)
qed

lemma double_exact:
  assumes x: "x \<noteq> 0"
    and e: "e = max (floor_log2 \<bar>x\<bar> - 52) (- 1074)" "e < 971"
    and z: "x = of_int z * pow2 e"
  shows "double x = Fin x"
proof -
  have p: "pow2 e \<noteq> 0"
    by (simp add: pow2_def)
  from z p have "x / pow2 e = of_int z"
    by simp
  then have r: "round_half_even (x / pow2 e) = z"
    by (simp add: round_half_even_of_int)
  have c: "\<not> (971 < e \<or> (e = 971 \<and> 2 ^ 53 \<le> \<bar>z\<bar>))"
    using e(2) by linarith
  have "double x =
      (if 971 < e \<or> (e = 971 \<and> 2 ^ 53 \<le> \<bar>z\<bar>) then (if 0 < x then PInf else NInf)
       else Fin (of_int z * pow2 e))"
    unfolding double_def e(1) [symmetric] Let_def r using x by (simp only: if_False)
  also have "\<dots> = Fin (of_int z * pow2 e)"
    using c by (simp only: if_False)
  finally show ?thesis using z by simp
qed

lemma double_of_int:
  assumes "\<bar>n\<bar> \<le> 2 ^ 53"
  shows "double (of_int n) = Fin (of_int n)"
proof (cases "n = 0")
  case True
  then show ?thesis by (simp add: double_def)
next
  case False
  define a where "a = \<bar>n\<bar>"
  define k where "k = bitlen a - 1"
  from False have a: "0 < a" by (simp add: a_def)
  have ax: "\<bar>of_int n :: rat\<bar> = of_int a"
    by (simp add: a_def)
  note fl = floor_log2_of_int [OF a, folded k_def]
  from fl(3) assms have "(2::int) ^ nat k \<le> 2 ^ 53"
    unfolding a_def by (rule order_trans)
  then have k53: "nat k \<le> 53"
    by (rule power_le_imp_le_exp [rotated]) simp
  with fl(2) have kle: "k \<le> 53" by simp
  define e where "e = k - 52"
  have e1: "e = max (floor_log2 \<bar>of_int n :: rat\<bar> - 52) (- 1074)"
    using fl(1) fl(2) by (simp add: ax e_def)
  have e2: "e < 971"
    using kle by (simp add: e_def)
  have "\<exists>z. (of_int n :: rat) = of_int z * pow2 e"
  proof (cases "k \<le> 52")
    case True
    then have "pow2 e = 1 / 2 ^ nat (52 - k)"
      by (simp add: pow2_def e_def)
    then have "(of_int n :: rat) = of_int (n * 2 ^ nat (52 - k)) * pow2 e"
      by simp
    then show ?thesis by blast
  next
    case False
    with kle have k: "k = 53" by simp
    from fl(3) have "(2::int) ^ 53 \<le> a"
      unfolding k by (simp only: nat_numeral)
    with assms have "a = 2 ^ 53"
      unfolding a_def by (rule order_antisym)
    then have "even a"
      by simp
    then have "even n"
      by (simp add: a_def)
    then obtain m where "n = 2 * m" by (auto elim: evenE)
    moreover have "pow2 e = 2"
      by (simp add: e_def k pow2_def)
    ultimately have "(of_int n :: rat) = of_int m * pow2 e"
      by simp
    then show ?thesis by blast
  qed
  then obtain z where z: "(of_int n :: rat) = of_int z * pow2 e" by blast
  from False have "(of_int n :: rat) \<noteq> 0" by simp
  from double_exact [OF this e1 e2 z] show ?thesis .
qed

section \<open>The error of a rounding\<close>

lemma pow2_powi: "pow2 e = 2 powi e"
  by (simp add: pow2_def power_int_def power_inverse inverse_eq_divide power_one_over)

lemma pow2_pos: "0 < pow2 e"
  by (simp add: pow2_def)

lemma pow2_mono: "a \<le> b \<Longrightarrow> pow2 a \<le> pow2 b"
  unfolding pow2_powi by (rule power_int_increasing) simp_all

lemma pow2_less_imp: "pow2 a < pow2 b \<Longrightarrow> a < b"
  using pow2_mono [of b a] by (cases "a < b") auto

lemma pow2_diff: "pow2 (a - b) = pow2 a / pow2 b"
  unfolding pow2_powi by (rule power_int_diff) simp

lemma bitlen_rat_bounds:
  assumes "0 < a"
  shows "pow2 (bitlen a - 1) \<le> of_int a" and "(of_int a :: rat) < pow2 (bitlen a)"
proof -
  from assms have nz: "bitlen a \<noteq> 0"
    by (simp add: bitlen_eq_zero_iff)
  with bitlen_nonneg [of a] have k: "0 \<le> bitlen a - 1" and k': "0 \<le> bitlen a"
    by simp_all
  from bitlen_bounds [OF assms] have l: "(2::int) ^ nat (bitlen a - 1) \<le> a"
    and u: "a < 2 ^ nat (bitlen a)"
    by simp_all
  from l have "(of_int ((2::int) ^ nat (bitlen a - 1)) :: rat) \<le> of_int a"
    by (simp only: of_int_le_iff)
  then show "pow2 (bitlen a - 1) \<le> of_int a"
    using k by (simp add: pow2_def)
  from u have "(of_int a :: rat) < of_int ((2::int) ^ nat (bitlen a))"
    by (simp only: of_int_less_iff)
  then show "(of_int a :: rat) < pow2 (bitlen a)"
    using k' by (simp add: pow2_def)
qed

lemma floor_log2_bounds:
  assumes "0 < x"
  shows "pow2 (floor_log2 x) \<le> x" and "x < pow2 (floor_log2 x + 1)"
proof -
  obtain p q where pq: "quotient_of x = (p, q)"
    by (cases "quotient_of x")
  from quotient_of_denom_pos [OF pq] have q: "0 < q" .
  from quotient_of_div [OF pq] have x: "x = of_int p / of_int q" .
  from assms x q have p: "0 < p"
    by (simp add: zero_less_divide_iff)
  define k where "k = bitlen p - bitlen q"
  note bp = bitlen_rat_bounds [OF p] and bq = bitlen_rat_bounds [OF q]
  have qpos: "(0::rat) < of_int q"
    using q by simp
  have lower: "pow2 (k - 1) < x"
  proof -
    have "pow2 (k - 1) = pow2 (bitlen p - 1) / pow2 (bitlen q)"
      unfolding k_def pow2_diff [symmetric] by (simp add: algebra_simps)
    also have "\<dots> \<le> of_int p / pow2 (bitlen q)"
      using bp(1) pow2_pos [of "bitlen q"] by (simp add: divide_right_mono)
    also have "\<dots> < of_int p / of_int q"
      using bq(2) p qpos by (simp add: divide_strict_left_mono pow2_pos)
    finally show ?thesis using x by simp
  qed
  have upper: "x < pow2 (k + 1)"
  proof -
    have "x = of_int p / of_int q"
      by (rule x)
    also have "\<dots> < pow2 (bitlen p) / of_int q"
      using bp(2) qpos by (simp add: divide_strict_right_mono)
    also have "\<dots> \<le> pow2 (bitlen p) / pow2 (bitlen q - 1)"
      using bq(1) pow2_pos [of "bitlen q - 1"] pow2_pos [of "bitlen p"]
      by (simp add: divide_left_mono)
    also have "\<dots> = pow2 (k + 1)"
      unfolding k_def pow2_diff [symmetric] by (simp add: algebra_simps)
    finally show ?thesis .
  qed
  have f: "floor_log2 x = (if pow2 k \<le> x then k else k - 1)"
    by (simp add: floor_log2_def pq k_def)
  show "pow2 (floor_log2 x) \<le> x"
    using f lower by (simp split: if_splits)
  show "x < pow2 (floor_log2 x + 1)"
    using f upper by (simp split: if_splits)
qed

lemma round_half_even_error: "\<bar>of_int (round_half_even r) - r\<bar> \<le> 1 / 2"
proof -
  define f where "f = \<lfloor>r\<rfloor>"
  define d where "d = r - of_int f"
  have d: "0 \<le> d" "d < 1"
    unfolding d_def f_def by linarith+
  have e: "round_half_even r =
      (if d < 1 / 2 then f else if 1 / 2 < d then f + 1 else if even f then f else f + 1)"
    by (simp add: round_half_even_def Let_def f_def d_def)
  have lo: "\<bar>of_int f - r\<bar> = d"
    using d by (simp add: d_def)
  have hi: "\<bar>of_int (f + 1) - r\<bar> = 1 - d"
    using d by (simp add: d_def)
  consider (a) "d < 1 / 2" | (b) "1 / 2 < d" | (c) "d = 1 / 2"
    by linarith
  then show ?thesis
  proof cases
    case a
    with e have "round_half_even r = f" by simp
    with lo a show ?thesis by simp
  next
    case b
    with e have "round_half_even r = f + 1" by simp
    with hi b show ?thesis by simp
  next
    case c
    with e have "round_half_even r = f \<or> round_half_even r = f + 1" by simp
    with lo hi c show ?thesis by auto
  qed
qed

text \<open>
  Below \<open>2 ^ 40\<close> a double is within \<open>2 ^ - 14\<close> of the value it rounds, and a value that
  rounds to a double below \<open>2 ^ 40\<close> is itself below \<open>2 ^ 40\<close>.
\<close>

lemma double_near:
  assumes y: "y \<noteq> 0" and b: "\<bar>y\<bar> < 2 ^ 40"
  shows "\<exists>d. double y = Fin d \<and> \<bar>d - y\<bar> \<le> 1 / 2 ^ 14"
proof -
  define k where "k = floor_log2 \<bar>y\<bar>"
  define e where "e = max (k - 52) (- 1074)"
  define m where "m = round_half_even (y / pow2 e)"
  from y have pos: "0 < \<bar>y\<bar>"
    by simp
  from floor_log2_bounds(1) [OF pos] b have "pow2 k < pow2 40"
    unfolding k_def by (simp add: pow2_def)
  then have k: "k < 40"
    by (rule pow2_less_imp)
  then have e: "e \<le> - 13"
    by (simp add: e_def)
  then have "pow2 e \<le> pow2 (- 13)"
    by (rule pow2_mono)
  then have pe: "pow2 e \<le> 1 / 2 ^ 13"
    by (simp add: pow2_def)
  have c: "\<not> (971 < e \<or> (e = 971 \<and> 2 ^ 53 \<le> \<bar>m\<bar>))"
    using e by linarith
  have "double y =
      (if 971 < e \<or> (e = 971 \<and> 2 ^ 53 \<le> \<bar>m\<bar>) then (if 0 < y then PInf else NInf)
       else Fin (of_int m * pow2 e))"
    unfolding double_def e_def k_def m_def Let_def using y by (simp only: if_False)
  also have "\<dots> = Fin (of_int m * pow2 e)"
    using c by (simp only: if_False)
  finally have dy: "double y = Fin (of_int m * pow2 e)" .
  have "of_int m * pow2 e - y = (of_int m - y / pow2 e) * pow2 e"
    using pow2_pos [of e] by (simp add: algebra_simps)
  then have "\<bar>of_int m * pow2 e - y\<bar> = \<bar>of_int m - y / pow2 e\<bar> * pow2 e"
    using pow2_pos [of e] by (simp add: abs_mult)
  also have "\<dots> \<le> 1 / 2 * pow2 e"
    using round_half_even_error [of "y / pow2 e"] pow2_pos [of e]
    unfolding m_def by (simp add: mult_right_mono)
  also have "\<dots> \<le> 1 / 2 * (1 / 2 ^ 13)"
    using pe by simp
  finally have "\<bar>of_int m * pow2 e - y\<bar> \<le> 1 / 2 ^ 14"
    by simp
  with dy show ?thesis by blast
qed

lemma double_small:
  assumes y: "y \<noteq> 0" and d: "double y = Fin d" and b: "\<bar>d\<bar> < 2 ^ 40"
  shows "\<bar>y\<bar> < 2 ^ 40"
proof (rule ccontr)
  assume "\<not> \<bar>y\<bar> < 2 ^ 40"
  then have big: "2 ^ 40 \<le> \<bar>y\<bar>"
    by simp
  define k where "k = floor_log2 \<bar>y\<bar>"
  define e where "e = max (k - 52) (- 1074)"
  define m where "m = round_half_even (y / pow2 e)"
  from y have pos: "0 < \<bar>y\<bar>"
    by simp
  from floor_log2_bounds(2) [OF pos] big have "pow2 40 < pow2 (k + 1)"
    unfolding k_def by (simp add: pow2_def)
  then have k: "40 \<le> k"
    using pow2_less_imp [of 40 "k + 1"] by simp
  then have e: "e = k - 52"
    by (simp add: e_def)
  have "double y =
      (if 971 < e \<or> (e = 971 \<and> 2 ^ 53 \<le> \<bar>m\<bar>) then (if 0 < y then PInf else NInf)
       else Fin (of_int m * pow2 e))"
    unfolding double_def e_def k_def m_def Let_def using y by (simp only: if_False)
  with d have dm: "d = of_int m * pow2 e"
    by (simp split: if_splits)
  have "pow2 52 = pow2 k / pow2 e"
    unfolding e pow2_diff [symmetric] by simp
  also have "\<dots> \<le> \<bar>y\<bar> / pow2 e"
    using floor_log2_bounds(1) [OF pos] pow2_pos [of e]
    unfolding k_def by (simp add: divide_right_mono)
  finally have l: "2 ^ 52 \<le> \<bar>y / pow2 e\<bar>"
    using pow2_pos [of e] by (simp add: pow2_def)
  have "\<bar>y / pow2 e\<bar> \<le> \<bar>of_int m\<bar> + \<bar>of_int m - y / pow2 e\<bar>"
    by simp
  also have "\<dots> \<le> \<bar>of_int m\<bar> + 1 / 2"
    using round_half_even_error [of "y / pow2 e"] unfolding m_def by simp
  finally have "(2 :: rat) ^ 52 - 1 / 2 \<le> \<bar>of_int m\<bar>"
    using l by simp
  then have "(2 :: rat) ^ 52 - 1 / 2 \<le> of_int \<bar>m\<bar>"
    by simp
  then have "(of_int ((2 :: int) ^ 52 - 1) :: rat) < of_int \<bar>m\<bar>"
    by simp
  then have "(2 :: int) ^ 52 - 1 < \<bar>m\<bar>"
    by (simp only: of_int_less_iff)
  then have m: "(2 :: int) ^ 52 \<le> \<bar>m\<bar>"
    by simp
  then have "(2 :: rat) ^ 52 \<le> of_int \<bar>m\<bar>"
    by (metis of_int_le_iff of_int_numeral of_int_power)
  then have "pow2 52 * pow2 e \<le> \<bar>of_int m\<bar> * pow2 e"
    using pow2_pos [of e] by (simp add: pow2_def)
  also have "\<dots> = \<bar>d\<bar>"
    using pow2_pos [of e] by (simp add: dm abs_mult)
  finally have "pow2 52 * pow2 e \<le> \<bar>d\<bar>" .
  moreover have "pow2 52 * pow2 e = pow2 k"
    unfolding e pow2_diff by (simp add: pow2_pos less_imp_neq [OF pow2_pos, symmetric])
  moreover have "pow2 40 \<le> pow2 k"
    using k by (rule pow2_mono)
  ultimately have "2 ^ 40 \<le> \<bar>d\<bar>"
    by (simp add: pow2_def)
  with b show False by simp
qed

section \<open>Amounts and their texts\<close>

lemma written_decimal_0: "written_decimal 0 = 0"
  by (simp add: written_decimal_def double_def)

text \<open>
  Up to \<open>10 ^ 14\<close> cents, the text of the double of so many cents divided by 100 is
  that many cents divided by 100.
\<close>

lemma written_amount:
  assumes "\<bar>c\<bar> \<le> 10 ^ 14"
  shows "\<exists>d. double (of_int c / 100) = Fin d \<and> written_decimal d = of_int c / 100"
proof (cases "c = 0")
  case True
  then show ?thesis by (simp add: written_decimal_0 double_def)
next
  case False
  define y :: rat where "y = of_int c / 100"
  from False have y: "y \<noteq> 0"
    by (simp add: y_def)
  from assms have "\<bar>of_int c :: rat\<bar> \<le> of_int (10 ^ 14)"
    unfolding of_int_abs [symmetric] by (simp only: of_int_le_iff)
  then have "\<bar>y\<bar> \<le> 10 ^ 12"
    by (simp add: y_def)
  then have "\<bar>y\<bar> < 2 ^ 40"
    by simp
  from double_near [OF y this] obtain d where
    d: "double y = Fin d" "\<bar>d - y\<bar> \<le> 1 / 2 ^ 14"
    by blast
  have "d * 1000 - of_int (c * 10) = (d - y) * 1000"
    by (simp add: y_def algebra_simps)
  then have "\<bar>d * 1000 - of_int (c * 10)\<bar> = \<bar>d - y\<bar> * 1000"
    by (simp only: abs_mult abs_numeral)
  also have "\<dots> \<le> 1 / 2 ^ 14 * 1000"
    using d(2) by (simp only: mult_right_mono zero_le_numeral)
  also have "\<dots> < 1 / 2"
    by simp
  finally have "round (d * 1000) = c * 10"
    by (rule round_unique')
  then have t: "(of_int (round (d * 1000)) :: rat) / 1000 = y"
    by (simp add: y_def)
  have "written_decimal d = y"
    unfolding written_decimal_def Let_def t using d(1) by simp
  with d(1) show ?thesis
    unfolding y_def by blast
qed

text \<open>Two numbers of cents with the same amount are the same, up to \<open>10 ^ 14\<close> cents.\<close>

lemma written_near:
  assumes "written_decimal d = x" and "\<bar>x\<bar> \<le> 10 ^ 12"
  shows "\<bar>d - x\<bar> \<le> 1 / 2 ^ 14"
proof -
  define t :: rat where "t = of_int (round (d * 1000)) / 1000"
  have w: "written_decimal d = (if double t = Fin d then t else d)"
    by (simp add: written_decimal_def Let_def t_def)
  show ?thesis
  proof (cases "double t = Fin d")
    case True
    with w assms(1) have tx: "t = x" by simp
    show ?thesis
    proof (cases "t = 0")
      case t0: True
      with True have "d = 0" by (simp add: double_def)
      with t0 tx show ?thesis by simp
    next
      case False
      from assms(2) tx have "\<bar>t\<bar> < 2 ^ 40" by simp
      from double_near [OF False this] True tx show ?thesis by auto
    qed
  next
    case False
    with w assms(1) show ?thesis by simp
  qed
qed

lemma cents_unique:
  assumes z: "double (of_int z / 100) = Fin d"
    and c: "written_decimal d = of_int c / 100"
    and b: "\<bar>c\<bar> \<le> 10 ^ 14"
  shows "z = c"
proof -
  define x :: rat where "x = of_int c / 100"
  define y :: rat where "y = of_int z / 100"
  from b have "\<bar>of_int c :: rat\<bar> \<le> of_int (10 ^ 14)"
    unfolding of_int_abs [symmetric] by (simp only: of_int_le_iff)
  then have x: "\<bar>x\<bar> \<le> 10 ^ 12"
    by (simp add: x_def)
  from written_near [OF c [folded x_def] x] have dx: "\<bar>d - x\<bar> \<le> 1 / 2 ^ 14" .
  have dy: "\<bar>d - y\<bar> \<le> 1 / 2 ^ 14"
  proof (cases "y = 0")
    case True
    with z have "d = 0" by (simp add: y_def double_def)
    with True show ?thesis by simp
  next
    case False
    from dx x have "\<bar>d\<bar> < 2 ^ 40"
      by (simp add: abs_if split: if_splits)
    from double_small [OF False z [folded y_def] this] have "\<bar>y\<bar> < 2 ^ 40" .
    from double_near [OF False this] z show ?thesis
      unfolding y_def by auto
  qed
  from dx dy have "\<bar>y - x\<bar> \<le> 1 / 2 ^ 13"
    by (simp add: abs_if split: if_splits)
  then have "\<bar>y - x\<bar> * 100 < 1"
    by simp
  moreover have "(of_int (z - c) :: rat) = (y - x) * 100"
    by (simp add: x_def y_def algebra_simps)
  ultimately have "\<bar>of_int (z - c) :: rat\<bar> < 1"
    by (simp only: abs_mult abs_numeral)
  then have "\<bar>z - c\<bar> < 1"
    unfolding of_int_abs [symmetric] by (metis of_int_1 of_int_less_iff)
  then show ?thesis by simp
qed

section \<open>The formatted sale\<close>

text \<open>
  C9 (as stated, refuted). The claim has \<open>formatSale\<close> render the attendant through
  the chain display name, username, "Walk-in customer". It does not: a sale without
  attendant is formatted with a null attendant, and an attendant without a full name
  keeps the null full name beside the username.
\<close>

theorem formatSale_no_fallback_counterexample:
  "f_attendant (formatSale \<lparr> sr_sale = sale0, sr_attendant = None, sr_items = [] \<rparr>) = None \<and>
   f_attendant (formatSale \<lparr> sr_sale = sale0,
       sr_attendant = Some \<lparr> u_id = ''u2'', u_fullName = None, u_username = Some ''kofi'' \<rparr>,
       sr_items = [] \<rparr>)
     = Some \<lparr> fa_id = ''u2'', fa_fullName = None, fa_username = Some ''kofi'' \<rparr>"
  by (simp add: formatSale_def)

text \<open>
  C9 (amended). For every formatted sale the attendant is carried as its id, full name
  and username exactly as stored, or as null when the sale has none; each item carries
  a product summary of id, name and sku, null when the product is absent. The chain
  full name, else username, else "Walk-in customer" is what the dashboard's
  recent-activity builder computes from the attendant, not \<open>formatSale\<close>.
\<close>

theorem formatSale_attendant_and_products:
  "f_attendant (formatSale s) =
     map_option (\<lambda>a. \<lparr> fa_id = u_id a, fa_fullName = u_fullName a, fa_username = u_username a \<rparr>)
       (sr_attendant s) \<and>
   map fi_product (f_items (formatSale s)) =
     map (\<lambda>i. map_option (\<lambda>p. \<lparr> fp_id = p_id p, fp_name = p_name p, fp_sku = p_sku p \<rparr>) (ip_product i))
       (sr_items s) \<and>
   activity_context (sr_attendant s) =
     (case sr_attendant s of
        None \<Rightarrow> ''Walk-in customer''
      | Some a \<Rightarrow>
          (case u_fullName a of
             Some n \<Rightarrow> n
           | None \<Rightarrow> (case u_username a of Some n \<Rightarrow> n | None \<Rightarrow> ''Walk-in customer'')))"
proof (intro conjI)
  show "f_attendant (formatSale s) =
     map_option (\<lambda>a. \<lparr> fa_id = u_id a, fa_fullName = u_fullName a, fa_username = u_username a \<rparr>)
       (sr_attendant s)"
    by (cases "sr_attendant s") (simp_all add: formatSale_def)
  show "map fi_product (f_items (formatSale s)) =
     map (\<lambda>i. map_option (\<lambda>p. \<lparr> fp_id = p_id p, fp_name = p_name p, fp_sku = p_sku p \<rparr>) (ip_product i))
       (sr_items s)"
    by (simp add: formatSale_def formatItem_def option.map_sel split: option.splits)
  show "activity_context (sr_attendant s) =
     (case sr_attendant s of
        None \<Rightarrow> ''Walk-in customer''
      | Some a \<Rightarrow>
          (case u_fullName a of
             Some n \<Rightarrow> n
           | None \<Rightarrow> (case u_username a of Some n \<Rightarrow> n | None \<Rightarrow> ''Walk-in customer'')))"
    by (simp add: activity_context_def split: option.splits)
qed

section \<open>The steps of the transaction\<close>

lemma POST_catch_status: "status (POST_catch e) = 400 \<or> status (POST_catch e) = 500"
  by (simp add: POST_catch_def json_response_def)

lemma POST_catch_not_201: "status (POST_catch e) \<noteq> 201"
  using POST_catch_status [of e] by auto

lemma create_item_row:
  assumes "create_item rt k item = Inr row"
  shows "row_of_payload item row"
  using assms unfolding row_of_payload_def
  by (cases "pl_productId item"; cases "pl_quantity item"; cases "pl_price item"; cases "pl_total item")
     (auto simp: create_item_def split: option.splits)

lemma create_items_rows:
  "create_items rt k items = Inr rows \<Longrightarrow> list_all2 row_of_payload items rows"
proof (induction items arbitrary: k rows)
  case Nil
  then show ?case by simp
next
  case (Cons item rest)
  from Cons.prems obtain row rows' where
    r: "create_item rt k item = Inr row" and
    rs: "create_items rt (k + 1) rest = Inr rows'" and
    e: "rows = row # rows'"
    by (auto split: sum.splits)
  from create_item_row [OF r] Cons.IH [OF rs] e show ?case by simp
qed

lemma sale_create_Inr:
  assumes "sale_create rt d n receiptNumber userId subtotal discount totalAmount paymentMethod items = (Inr sw, d')"
  shows "\<exists>uid sub disc tot rows.
           userId = JStr uid \<and> subtotal = Fin sub \<and> discount = Fin disc \<and> totalAmount = Fin tot \<and>
           create_items rt 0 items = Inr rows \<and>
           receiptNumber \<notin> set (map s_receiptNumber (sales d)) \<and>
           d' = d\<lparr> sales := sales d @
                  [\<lparr> s_id = new_sale_id rt, s_receiptNumber = receiptNumber,
                     s_userId = uid, s_paymentMethod = paymentMethod,
                     s_subtotal = written_decimal sub,
                     s_discount = Some (written_decimal disc),
                     s_totalAmount = written_decimal tot, s_createdAt = db_now rt,
                     s_items = rows \<rparr>] \<rparr> \<and>
           sw = with_relations d'
                  \<lparr> s_id = new_sale_id rt, s_receiptNumber = receiptNumber,
                     s_userId = uid, s_paymentMethod = paymentMethod,
                     s_subtotal = written_decimal sub,
                     s_discount = Some (written_decimal disc),
                     s_totalAmount = written_decimal tot, s_createdAt = db_now rt,
                     s_items = rows \<rparr>"
  using assms
  by (cases userId; cases subtotal; cases discount; cases totalAmount)
     (auto simp: sale_create_def Let_def split: if_splits sum.splits option.splits)

lemma stock_update_fields:
  "stock_update rt d n productId quantity = (r, d') \<Longrightarrow>
   sales d' = sales d \<and> products d' = products d \<and> users d' = users d"
  by (cases productId; cases quantity)
     (auto simp: stock_update_def split: if_splits option.splits)

lemma update_all_fields:
  "update_all rt d n items = (r, d') \<Longrightarrow>
   sales d' = sales d \<and> products d' = products d \<and> users d' = users d"
proof (induction items arbitrary: d n)
  case Nil
  then show ?case by simp
next
  case (Cons item rest)
  obtain r1 d1 where s: "stock_update rt d n (pl_productId item) (pl_quantity item) = (r1, d1)"
    by (cases "stock_update rt d n (pl_productId item) (pl_quantity item)")
  note f = stock_update_fields [OF s]
  show ?case
  proof (cases r1)
    case (Inl e)
    with Cons.prems s f show ?thesis by simp
  next
    case (Inr u)
    with Cons.prems s have "update_all rt d1 (n + 1) rest = (r, d')" by simp
    from Cons.IH [OF this] f show ?thesis by simp
  qed
qed

lemma with_relations_cong:
  "products d' = products d \<Longrightarrow> users d' = users d \<Longrightarrow> with_relations d' s = with_relations d s"
  by (simp add: with_relations_def find_user_def find_product_def)

lemma sale_tx_Inr:
  assumes "sale_tx rt v itemsPayload subtotalInCents discountInCents d = (Inr sw, d')"
  shows "\<exists>uid sub disc tot rows created.
           recheck rt d 0 itemsPayload = Inr () \<and>
           v_userId v = JStr uid \<and>
           centsToAmount subtotalInCents = Fin sub \<and>
           centsToAmount discountInCents = Fin disc \<and>
           centsToAmount (js_sub subtotalInCents discountInCents) = Fin tot \<and>
           create_items rt 0 itemsPayload = Inr rows \<and>
           resolveReceiptNumber rt (v_receiptNumber v) \<notin> set (map s_receiptNumber (sales d)) \<and>
           created = \<lparr> s_id = new_sale_id rt,
                       s_receiptNumber = resolveReceiptNumber rt (v_receiptNumber v),
                       s_userId = uid, s_paymentMethod = v_paymentMethod v,
                       s_subtotal = written_decimal sub,
                       s_discount = Some (written_decimal disc),
                       s_totalAmount = written_decimal tot, s_createdAt = db_now rt,
                       s_items = rows \<rparr> \<and>
           update_all rt (d\<lparr> sales := sales d @ [created] \<rparr>) (length itemsPayload + 1) itemsPayload
             = (Inr (), d') \<and>
           sales d' = sales d @ [created] \<and> products d' = products d \<and> users d' = users d \<and>
           sw = with_relations d created"
proof -
  let ?rn = "resolveReceiptNumber rt (v_receiptNumber v)"
  let ?sc = "sale_create rt d (length itemsPayload) ?rn (v_userId v)
           (centsToAmount subtotalInCents) (centsToAmount discountInCents)
           (centsToAmount (js_sub subtotalInCents discountInCents))
           (v_paymentMethod v) itemsPayload"
  obtain r1 d1 where sc: "?sc = (r1, d1)"
    by (cases ?sc)
  obtain r2 d2 where up: "update_all rt d1 (length itemsPayload + 1) itemsPayload = (r2, d2)"
    by (cases "update_all rt d1 (length itemsPayload + 1) itemsPayload")
  have rc: "recheck rt d 0 itemsPayload = Inr ()"
    using assms by (cases "recheck rt d 0 itemsPayload") (simp_all add: sale_tx_def)
  have tx: "sale_tx rt v itemsPayload subtotalInCents discountInCents d =
        (case r1 of Inl e \<Rightarrow> (Inl e, d1)
         | Inr createdSale \<Rightarrow> (case r2 of Inl e \<Rightarrow> (Inl e, d2) | Inr u' \<Rightarrow> (Inr createdSale, d2)))"
    using rc sc up by (simp add: sale_tx_def split: sum.splits)
  have r1: "r1 = Inr sw" and r2: "r2 = Inr ()" and d2: "d2 = d'"
    using assms tx by (cases r1; cases r2; simp)+
  from sale_create_Inr [OF sc [unfolded r1]] obtain uid sub disc tot rows where
    f: "v_userId v = JStr uid" "centsToAmount subtotalInCents = Fin sub"
       "centsToAmount discountInCents = Fin disc"
       "centsToAmount (js_sub subtotalInCents discountInCents) = Fin tot"
       "create_items rt 0 itemsPayload = Inr rows"
       "?rn \<notin> set (map s_receiptNumber (sales d))"
    and d1: "d1 = d\<lparr> sales := sales d @
                  [\<lparr> s_id = new_sale_id rt, s_receiptNumber = ?rn,
                     s_userId = uid, s_paymentMethod = v_paymentMethod v,
                     s_subtotal = written_decimal sub,
                     s_discount = Some (written_decimal disc),
                     s_totalAmount = written_decimal tot, s_createdAt = db_now rt,
                     s_items = rows \<rparr>] \<rparr>"
    and sw: "sw = with_relations d1
                  \<lparr> s_id = new_sale_id rt, s_receiptNumber = ?rn,
                     s_userId = uid, s_paymentMethod = v_paymentMethod v,
                     s_subtotal = written_decimal sub,
                     s_discount = Some (written_decimal disc),
                     s_totalAmount = written_decimal tot, s_createdAt = db_now rt,
                     s_items = rows \<rparr>"
    by blast
  let ?created = "\<lparr> s_id = new_sale_id rt, s_receiptNumber = ?rn,
                     s_userId = uid, s_paymentMethod = v_paymentMethod v,
                     s_subtotal = written_decimal sub,
                     s_discount = Some (written_decimal disc),
                     s_totalAmount = written_decimal tot, s_createdAt = db_now rt,
                     s_items = rows \<rparr>"
  have up': "update_all rt (d\<lparr> sales := sales d @ [?created] \<rparr>) (length itemsPayload + 1) itemsPayload
             = (Inr (), d')"
    using up r2 d2 d1 by simp
  have uf: "sales d' = sales d @ [?created] \<and> products d' = products d \<and> users d' = users d"
    using update_all_fields [OF up'] by simp
  have sw': "sw = with_relations d ?created"
    unfolding sw d1 by (rule with_relations_cong) simp_all
  show ?thesis
    using rc f up' uf sw' by blast
qed

lemma POST_commit_201:
  assumes "POST_commit rt v itemsPayload subtotalInCents discountInCents d = (resp, d')"
    and "status resp = 201"
  shows "\<exists>sw. sale_tx rt v itemsPayload subtotalInCents discountInCents d = (Inr sw, d') \<and>
              resp = json_response (SaleBody (formatSale sw)) 201"
proof -
  obtain r dx where t: "sale_tx rt v itemsPayload subtotalInCents discountInCents d = (r, dx)"
    by (cases "sale_tx rt v itemsPayload subtotalInCents discountInCents d")
  show ?thesis
  proof (cases r)
    case (Inl e)
    with t assms(1) have "resp = POST_catch e"
      by (simp add: POST_commit_def transaction_def)
    with assms(2) POST_catch_not_201 show ?thesis by blast
  next
    case (Inr sw)
    show ?thesis
    proof (cases "expired rt (2 * length itemsPayload + 1)")
      case True
      with t Inr assms(1) have "resp = POST_catch (timeout_error rt)"
        by (simp add: POST_commit_def transaction_def)
      with assms(2) POST_catch_not_201 show ?thesis by blast
    next
      case False
      with t Inr assms(1) show ?thesis
        by (simp add: POST_commit_def transaction_def)
    qed
  qed
qed

lemma POST_commit_failure_state:
  assumes "POST_commit rt v itemsPayload subtotalInCents discountInCents d = (resp, d')"
    and "status resp \<noteq> 201"
  shows "d' = d"
proof -
  obtain r dx where t: "sale_tx rt v itemsPayload subtotalInCents discountInCents d = (r, dx)"
    by (cases "sale_tx rt v itemsPayload subtotalInCents discountInCents d")
  show ?thesis
    using assms t
    by (cases r) (auto simp: POST_commit_def transaction_def json_response_def split: if_splits)
qed

section \<open>Reading the products\<close>

lemma find_product_id: "find_product d k = Some p \<Longrightarrow> p_id p = k"
  by (auto simp: find_product_def find_Some_iff)

lemma product_findMany_member:
  assumes "product_findMany rt d productIds = Inr found" and "pw \<in> set found"
  shows "\<exists>p. find_product d (pw_id pw) = Some p \<and>
             pw = \<lparr> pw_id = p_id p, pw_name = p_name p, pw_price = p_price p,
                    pw_stock = stocks d (pw_id pw) \<rparr>"
proof -
  define F where "F = (\<lambda>i. case id_string i of None \<Rightarrow> []
        | Some s \<Rightarrow> (case find_product d s of None \<Rightarrow> []
            | Some p \<Rightarrow> [\<lparr> pw_id = p_id p, pw_name = p_name p, pw_price = p_price p,
                           pw_stock = stocks d s \<rparr>]))"
  from assms(1) have "found = concat (map F productIds)"
    by (simp add: product_findMany_def F_def split: if_splits)
  with assms(2) obtain i where i: "pw \<in> set (F i)"
    by (auto simp only: set_concat set_map)
  have "\<exists>s p. find_product d s = Some p \<and>
     pw = \<lparr> pw_id = p_id p, pw_name = p_name p, pw_price = p_price p, pw_stock = stocks d s \<rparr>"
  proof (cases "id_string i")
    case None
    with i show ?thesis by (simp add: F_def)
  next
    case (Some s)
    show ?thesis
    proof (cases "find_product d s")
      case None
      with i Some show ?thesis by (simp add: F_def)
    next
      case (Some p)
      with i \<open>id_string i = Some s\<close> have
        "pw = \<lparr> pw_id = p_id p, pw_name = p_name p, pw_price = p_price p, pw_stock = stocks d s \<rparr>"
        by (simp add: F_def)
      with Some show ?thesis by blast
    qed
  qed
  then obtain s p where f: "find_product d s = Some p"
    and e: "pw = \<lparr> pw_id = p_id p, pw_name = p_name p, pw_price = p_price p, pw_stock = stocks d s \<rparr>"
    by blast
  from find_product_id [OF f] e have "pw_id pw = s" by simp
  with f e show ?thesis by auto
qed

lemma POST_items_Inr:
  assumes "POST_items rt d v = Inr (payloads, sub)"
  shows "\<exists>productMap.
           mapItems rt productMap (Fin 0) (v_items v) = Inr (payloads, sub) \<and>
           (\<forall>s pw. productMap s = Some pw \<longrightarrow>
              (\<exists>p. find_product d s = Some p \<and>
                 pw = \<lparr> pw_id = p_id p, pw_name = p_name p, pw_price = p_price p,
                        pw_stock = stocks d s \<rparr>))"
proof -
  let ?ids = "uniq (map sp_productId (v_items v))"
  from assms obtain found where
    fm: "product_findMany rt d ?ids = Inr found"
    and mi: "mapItems rt (map_of (rev (map (\<lambda>p. (pw_id p, p)) found))) (Fin 0) (v_items v)
               = Inr (payloads, sub)"
    by (auto simp: POST_items_def Let_def split: sum.splits if_splits)
  have "\<exists>p. find_product d s = Some p \<and>
                 pw = \<lparr> pw_id = p_id p, pw_name = p_name p, pw_price = p_price p,
                        pw_stock = stocks d s \<rparr>"
    if "map_of (rev (map (\<lambda>p. (pw_id p, p)) found)) s = Some pw" for s pw
  proof -
    from map_of_SomeD [OF that] have "pw \<in> set found" and "pw_id pw = s"
      by auto
    with product_findMany_member [OF fm] show ?thesis by blast
  qed
  with mi show ?thesis by blast
qed

lemma POST_prepare_Inr:
  assumes "POST_prepare rt d v = Inr (payloads, sub, disc)"
  shows "POST_items rt d v = Inr (payloads, sub) \<and> disc = toCents (v_discount v) \<and> \<not> js_gt disc sub"
  using assms by (auto simp: POST_prepare_def Let_def split: sum.splits if_splits)

section \<open>Failure leaves the database as it was\<close>

lemma js_lt_irrefl: "\<not> js_lt x x"
  by (cases x) simp_all

text \<open>
  C3. Whenever the handler answers anything but 201 the database is the one it started
  from. In particular, when the callback of the transaction throws, at the re-check, in
  \<open>sale.create\<close> (a receipt number in use included), at a stock update or because the
  timeout has elapsed, the response is the catch block's and nothing the callback wrote
  before it threw is kept; the same holds when the timeout elapses before the commit.
\<close>

theorem failed_transaction_leaves_no_trace:
  "(\<forall>resp d'. POST_commit rt v itemsPayload subtotalInCents discountInCents d = (resp, d') \<longrightarrow>
      (status resp \<noteq> 201 \<longrightarrow> d' = d) \<and>
      (\<forall>e dx. sale_tx rt v itemsPayload subtotalInCents discountInCents d = (Inl e, dx) \<longrightarrow>
         resp = POST_catch e \<and> d' = d) \<and>
      (expired rt (2 * length itemsPayload + 1) \<longrightarrow> status resp \<noteq> 201 \<and> d' = d)) \<and>
   (\<forall>request_json resp d'. POST rt d request_json = (resp, d') \<longrightarrow> status resp \<noteq> 201 \<longrightarrow> d' = d)"
proof (intro conjI allI impI)
  fix resp d'
  assume c: "POST_commit rt v itemsPayload subtotalInCents discountInCents d = (resp, d')"
  {
    assume "status resp \<noteq> 201"
    with c show "d' = d" by (rule POST_commit_failure_state)
  }
  {
    fix e dx
    assume t: "sale_tx rt v itemsPayload subtotalInCents discountInCents d = (Inl e, dx)"
    with c show "resp = POST_catch e" and "d' = d"
      by (simp_all add: POST_commit_def transaction_def)
  }
  {
    assume x: "expired rt (2 * length itemsPayload + 1)"
    obtain r dx where t: "sale_tx rt v itemsPayload subtotalInCents discountInCents d = (r, dx)"
      by (cases "sale_tx rt v itemsPayload subtotalInCents discountInCents d")
    from c t x have "(\<exists>e. resp = POST_catch e) \<and> d' = d"
      by (cases r) (auto simp: POST_commit_def transaction_def)
    with POST_catch_not_201 show "status resp \<noteq> 201" and "d' = d"
      by auto
  }
next
  fix request_json resp d'
  assume p: "POST rt d request_json = (resp, d')" and s: "status resp \<noteq> 201"
  show "d' = d"
  proof (cases "POST_validate rt request_json")
    case (Inl r)
    with p show ?thesis by (simp add: POST_def)
  next
    case (Inr v')
    show ?thesis
    proof (cases "POST_prepare rt d v'")
      case (Inl r)
      with p Inr show ?thesis by (simp add: POST_def)
    next
      case (Inr t)
      obtain pl sb dc where "t = (pl, sb, dc)" by (cases t)
      with p Inr \<open>POST_validate rt request_json = Inr v'\<close>
      have "POST_commit rt v' pl sb dc d = (resp, d')"
        by (simp add: POST_def)
      from POST_commit_failure_state [OF this s] show ?thesis .
    qed
  qed
qed

text \<open>
  A timeout at the first stock update: the callback has already written the sale when
  it throws, and the database after the request is the one before it.
\<close>

theorem failed_transaction_leaves_no_trace_witness:
  "fst (sale_tx rt_timeout v1 payload1 (Fin 2498) (Fin 125) db0) = Inl (timeout_error rt_timeout) \<and>
   length (sales (snd (sale_tx rt_timeout v1 payload1 (Fin 2498) (Fin 125) db0))) = 1 \<and>
   sales db0 = [] \<and>
   fst (POST_commit rt_timeout v1 payload1 (Fin 2498) (Fin 125) db0)
     = json_response (ErrorBody ''Unable to create sale.'') 500 \<and>
   snd (POST_commit rt_timeout v1 payload1 (Fin 2498) (Fin 125) db0) = db0"
proof -
  let ?c = "POST_commit rt_timeout v1 payload1 (Fin 2498) (Fin 125) db0"
  have c: "?c = (fst ?c, snd ?c)"
    by simp
  have r: "fst ?c = json_response (ErrorBody ''Unable to create sale.'') 500"
    by code_simp
  have s: "status (fst ?c) \<noteq> 201"
    unfolding r by (simp add: json_response_def)
  have t: "fst (sale_tx rt_timeout v1 payload1 (Fin 2498) (Fin 125) db0) = Inl (timeout_error rt_timeout)"
    by code_simp
  have l: "length (sales (snd (sale_tx rt_timeout v1 payload1 (Fin 2498) (Fin 125) db0))) = 1"
    by code_simp
  have e: "sales db0 = []"
    by (simp add: db0_def)
  from failed_transaction_leaves_no_trace [THEN conjunct1, rule_format, OF c]
  have "snd ?c = db0" using s by blast
  with r t l e show ?thesis by blast
qed

section \<open>Receipt numbers\<close>

lemma digit_char_inj:
  assumes "a < 10" and "b < 10" and "digit_char a = digit_char b"
  shows "a = b"
proof -
  have d: "distinct ''0123456789''" by simp
  have l: "length ''0123456789'' = 10" by simp
  from assms show ?thesis
    unfolding digit_char_def using nth_eq_iff_index_eq [OF d, of a b] l by simp
qed

lemma show_nat_nonempty: "show_nat n \<noteq> []"
  by (subst show_nat.simps) simp

lemma show_nat_small: "n < 10 \<Longrightarrow> show_nat n = [digit_char n]"
  by (subst show_nat.simps) simp

lemma show_nat_large: "\<not> n < 10 \<Longrightarrow> show_nat n = show_nat (n div 10) @ [digit_char (n mod 10)]"
  by (subst show_nat.simps) simp

lemma show_nat_inj: "show_nat a = show_nat b \<Longrightarrow> a = b"
proof (induction a arbitrary: b rule: show_nat.induct)
  case (1 n)
  show ?case
  proof (cases "n < 10")
    case True
    show ?thesis
    proof (cases "b < 10")
      case b: True
      from "1.prems" True b have "digit_char n = digit_char b"
        by (simp add: show_nat_small)
      with True b show ?thesis by (rule digit_char_inj)
    next
      case b: False
      from "1.prems" True b have "[digit_char n] = show_nat (b div 10) @ [digit_char (b mod 10)]"
        by (simp add: show_nat_small show_nat_large)
      then have "show_nat (b div 10) = []" by simp
      with show_nat_nonempty show ?thesis by blast
    qed
  next
    case False
    show ?thesis
    proof (cases "b < 10")
      case b: True
      from "1.prems" False b have "show_nat (n div 10) @ [digit_char (n mod 10)] = [digit_char b]"
        by (simp add: show_nat_small show_nat_large)
      then have "show_nat (n div 10) = []" by simp
      with show_nat_nonempty show ?thesis by blast
    next
      case b: False
      from "1.prems" False b have
        e: "show_nat (n div 10) = show_nat (b div 10)" and
        m: "digit_char (n mod 10) = digit_char (b mod 10)"
        by (simp_all add: show_nat_large)
      from "1.IH" [OF False e] have dv: "n div 10 = b div 10" .
      have "n mod 10 < 10" and "b mod 10 < 10" by simp_all
      from digit_char_inj [OF this m] have md: "n mod 10 = b mod 10" .
      from dv md show ?thesis
        by (metis div_mult_mod_eq)
    qed
  qed
qed

lemma get_prop_nullish: "get_prop (nullish j (JObj [])) k = get_prop j k"
  by (cases j) simp_all

lemma discount_default:
  "nullish (case x of JUndefined \<Rightarrow> JNum (Fin 0) | d \<Rightarrow> d) (JNum (Fin 0)) = nullish x (JNum (Fin 0))"
  by (cases x) simp_all

lemma POST_validate_receipt:
  assumes "POST_validate rt request_json = Inr v"
  shows "v_receiptNumber v = get_prop request_json ''receiptNumber''"
  using assms
  by (auto simp: POST_validate_def Let_def get_prop_nullish split: if_splits json.splits sum.splits)

text \<open>
  C8 (as stated, refuted). Two requests without receipt number that read the clock in
  the same millisecond are given the same receipt number; the second is answered 500
  "Receipt number must be unique." once the first is committed.
\<close>

theorem generated_receipt_numbers_collide_counterexample:
  "resolveReceiptNumber rt0 JUndefined = resolveReceiptNumber rt_second JUndefined \<and>
   status (fst (POST rt0 db0 (request [line ''P1'' 1]))) = 201 \<and>
   fst (POST rt_second (snd (POST rt0 db0 (request [line ''P1'' 1]))) (request [line ''P1'' 1]))
     = json_response (ErrorBody ''Receipt number must be unique.'') 500"
proof (intro conjI)
  show "resolveReceiptNumber rt0 JUndefined = resolveReceiptNumber rt_second JUndefined"
    by code_simp
  show "status (fst (POST rt0 db0 (request [line ''P1'' 1]))) = 201"
    by code_simp
  show "fst (POST rt_second (snd (POST rt0 db0 (request [line ''P1'' 1]))) (request [line ''P1'' 1]))
     = json_response (ErrorBody ''Receipt number must be unique.'') 500"
    by code_simp
qed

text \<open>
  C8 (amended). A committed sale stores the receipt number resolved from the request's
  \<open>receiptNumber\<close>, and no earlier sale has it. A string that is not empty after
  trimming resolves to itself trimmed; anything else resolves to "SAL-" followed by
  the clock in milliseconds, so two generated receipt numbers differ exactly when the
  two clock readings differ.
\<close>

theorem receipt_number_resolution:
  "(\<forall>rt v itemsPayload sub disc d resp d'.
      POST_commit rt v itemsPayload sub disc d = (resp, d') \<longrightarrow> status resp = 201 \<longrightarrow>
      (\<exists>created. sales d' = sales d @ [created] \<and>
         s_receiptNumber created = resolveReceiptNumber rt (v_receiptNumber v) \<and>
         s_receiptNumber created \<notin> set (map s_receiptNumber (sales d)))) \<and>
   (\<forall>rt request_json v. POST_validate rt request_json = Inr v \<longrightarrow>
      v_receiptNumber v = get_prop request_json ''receiptNumber'') \<and>
   (\<forall>rt s. trim s \<noteq> [] \<longrightarrow> resolveReceiptNumber rt (JStr s) = trim s) \<and>
   (\<forall>rt r. (\<forall>s. r = JStr s \<longrightarrow> trim s = []) \<longrightarrow>
      resolveReceiptNumber rt r = ''SAL-'' @ show_nat (Date_now rt)) \<and>
   (\<forall>a b. (''SAL-'' @ show_nat a = ''SAL-'' @ show_nat b) = (a = b))"
proof (intro conjI allI impI)
  fix rt v itemsPayload sub disc d resp d'
  assume c: "POST_commit rt v itemsPayload sub disc d = (resp, d')" and ok: "status resp = 201"
  from POST_commit_201 [OF c ok] obtain sw where
    "sale_tx rt v itemsPayload sub disc d = (Inr sw, d')" by blast
  from sale_tx_Inr [OF this] obtain created where
    "resolveReceiptNumber rt (v_receiptNumber v) \<notin> set (map s_receiptNumber (sales d))"
    "s_receiptNumber created = resolveReceiptNumber rt (v_receiptNumber v)"
    "sales d' = sales d @ [created]"
    by force
  then show "\<exists>created. sales d' = sales d @ [created] \<and>
         s_receiptNumber created = resolveReceiptNumber rt (v_receiptNumber v) \<and>
         s_receiptNumber created \<notin> set (map s_receiptNumber (sales d))"
    by auto
next
  fix rt request_json v
  assume "POST_validate rt request_json = Inr v"
  then show "v_receiptNumber v = get_prop request_json ''receiptNumber''"
    by (rule POST_validate_receipt)
next
  fix rt :: runtime and s
  assume "trim s \<noteq> []"
  moreover from this have "s \<noteq> []" by (auto simp: trim_def)
  ultimately show "resolveReceiptNumber rt (JStr s) = trim s"
    by (simp add: resolveReceiptNumber_def)
next
  fix rt :: runtime and r
  assume "\<forall>s. r = JStr s \<longrightarrow> trim s = []"
  then show "resolveReceiptNumber rt r = ''SAL-'' @ show_nat (Date_now rt)"
    by (cases r) (simp_all add: resolveReceiptNumber_def)
next
  fix a b :: nat
  show "(''SAL-'' @ show_nat a = ''SAL-'' @ show_nat b) = (a = b)"
    using show_nat_inj [of a b] by auto
qed

text \<open>A receipt number with blanks around it is stored trimmed.\<close>

theorem receipt_number_resolution_witness:
  "status (fst (POST_commit rt0 v_receipt payload1 (Fin 2498) (Fin 125) db0)) = 201 \<and>
   (\<exists>created.
      sales (snd (POST_commit rt0 v_receipt payload1 (Fin 2498) (Fin 125) db0)) = sales db0 @ [created] \<and>
      s_receiptNumber created = ''R-77'') \<and>
   trim ''  R-77 '' \<noteq> [] \<and>
   resolveReceiptNumber rt0 (JStr ''  R-77 '') = ''R-77'' \<and>
   resolveReceiptNumber rt0 JUndefined = ''SAL-1700''"
proof -
  let ?c = "POST_commit rt0 v_receipt payload1 (Fin 2498) (Fin 125) db0"
  have c: "?c = (fst ?c, snd ?c)" by simp
  have s: "status (fst ?c) = 201" by code_simp
  have t: "trim ''  R-77 '' = ''R-77''" by code_simp
  then have n: "trim ''  R-77 '' \<noteq> []" by simp
  have v: "v_receiptNumber v_receipt = JStr ''  R-77 ''" by (simp add: v_receipt_def)
  have u: "\<forall>s. JUndefined = JStr s \<longrightarrow> trim s = []" by simp
  have d: "Date_now rt0 = 1700" by (simp add: rt0_def)
  have sh: "show_nat 1700 = ''1700''" by code_simp
  note r = receipt_number_resolution
  from r [THEN conjunct2, THEN conjunct2, THEN conjunct1, rule_format, OF n, of rt0] t
  have r1: "resolveReceiptNumber rt0 (JStr ''  R-77 '') = ''R-77''" by simp
  from r [THEN conjunct2, THEN conjunct2, THEN conjunct2, THEN conjunct1, rule_format, of JUndefined rt0] d sh
  have r2: "resolveReceiptNumber rt0 JUndefined = ''SAL-1700''" by simp
  from r [THEN conjunct1, rule_format, OF c s] v r1
  have "\<exists>created. sales (snd ?c) = sales db0 @ [created] \<and> s_receiptNumber created = ''R-77''"
    by auto
  with s n r1 r2 show ?thesis by blast
qed

section \<open>Pricing of a line\<close>

lemma priceItem_Inr:
  assumes "priceItem rt productMap item = Inr (payload, lineTotalInCents)"
  shows "\<exists>product. productMap_get productMap (sp_productId item) = Some product \<and>
           isFinite (unitPrice_of product item) \<and>
           \<not> js_le (unitPrice_of product item) (Fin 0) \<and>
           lineTotalInCents = Math_round (js_mul (toCents (unitPrice_of product item)) (sp_quantity item)) \<and>
           payload = \<lparr> pl_productId = sp_productId item, pl_quantity = sp_quantity item,
                       pl_price = centsToAmount (toCents (unitPrice_of product item)),
                       pl_total = centsToAmount lineTotalInCents \<rparr>"
  using assms
  by (auto simp: priceItem_def Let_def split: option.splits if_splits)

lemma Math_round_Fin:
  assumes "Math_round x = Fin y"
  shows "\<exists>w. x = Fin w \<and> y = of_int (round w)"
  using assms by (cases x) auto

lemma centsToAmount_Fin:
  assumes "centsToAmount c = Fin p"
  shows "\<exists>a. c = Fin a \<and> double (a / 100) = Fin p"
  using assms by (cases c) (auto simp: centsToAmount_def)

lemma toCents_Fin:
  assumes "toCents u = Fin a"
  shows "\<exists>r w. u = Fin r \<and> double (r * 100) = Fin w \<and> a = of_int (round w)"
proof (cases u)
  case (Fin r)
  with assms have "Math_round (double (r * 100)) = Fin a"
    by (simp add: toCents_def)
  from Math_round_Fin [OF this] Fin show ?thesis by blast
qed (use assms in \<open>simp_all add: toCents_def signed_inf_def\<close>)

lemma line_total_Fin:
  assumes "Math_round (js_mul (Fin c) q) = Fin z"
  shows "\<exists>x t. q = Fin x \<and> double (c * x) = Fin t \<and> z = of_int (round t)"
proof -
  from Math_round_Fin [OF assms] obtain t where t: "js_mul (Fin c) q = Fin t" "z = of_int (round t)"
    by blast
  show ?thesis
  proof (cases q)
    case (Fin x)
    with t show ?thesis by simp
  qed (use t in \<open>simp_all add: signed_inf_def split: if_splits\<close>)
qed




section \<open>From the priced lines to the stored rows\<close>

lemma priceItem_row:
  assumes p: "priceItem rt productMap item = Inr (payload, lineTotal)"
    and r: "row_of_payload payload row"
  shows "\<exists>z::int. lineTotal = Fin (of_int z) \<and>
           pl_total payload = centsToAmount (Fin (of_int z)) \<and>
           row_of_item productMap item row"
proof -
  from priceItem_Inr [OF p] obtain product where
    g: "productMap_get productMap (sp_productId item) = Some product"
    and l: "lineTotal = Math_round (js_mul (toCents (unitPrice_of product item)) (sp_quantity item))"
    and pl: "payload = \<lparr> pl_productId = sp_productId item, pl_quantity = sp_quantity item,
                       pl_price = centsToAmount (toCents (unitPrice_of product item)),
                       pl_total = centsToAmount lineTotal \<rparr>"
    by blast
  from r pl obtain sp st where
    id: "sp_productId item = JStr (si_productId row)"
    and pr: "centsToAmount (toCents (unitPrice_of product item)) = Fin sp"
            "si_price row = written_decimal sp"
    and tt: "centsToAmount lineTotal = Fin st" "si_total row = written_decimal st"
    by (auto simp: row_of_payload_def)
  from centsToAmount_Fin [OF pr(1)] obtain a where
    a: "toCents (unitPrice_of product item) = Fin a" "double (a / 100) = Fin sp"
    by blast
  from toCents_Fin [OF a(1)] obtain u w where
    u: "unitPrice_of product item = Fin u" "double (u * 100) = Fin w" "a = of_int (round w)"
    by blast
  from centsToAmount_Fin [OF tt(1)] obtain b where
    b: "lineTotal = Fin b" "double (b / 100) = Fin st"
    by blast
  from l b(1) a(1) u(3) have "Math_round (js_mul (Fin (of_int (round w))) (sp_quantity item)) = Fin b"
    by simp
  from line_total_Fin [OF this] obtain q t where
    q: "sp_quantity item = Fin q" "double (of_int (round w) * q) = Fin t" "b = of_int (round t)"
    by blast
  from g id have m: "productMap (si_productId row) = Some product"
    by (simp add: productMap_get_def)
  from a(2) u(3) have dp: "double (of_int (round w) / 100) = Fin sp"
    by simp
  from b(2) q(3) have dt: "double (of_int (round t) / 100) = Fin st"
    by simp
  from id m u(1) u(2) dp pr(2) q(1) q(2) dt tt(2) have "row_of_item productMap item row"
    unfolding row_of_item_def by blast
  moreover from pl b(1) q(3) have "pl_total payload = centsToAmount (Fin (of_int (round t)))"
    by simp
  ultimately show ?thesis
    using b(1) q(3) by blast
qed

text \<open>The subtotal is the sum the loop computes: one addition of doubles for each line.\<close>

lemma mapItems_rows:
  "mapItems rt productMap acc items = Inr (payloads, sub) \<Longrightarrow>
   list_all2 row_of_payload payloads rows \<Longrightarrow>
   \<exists>cents. sub = foldl (\<lambda>s c. js_add s (Fin (of_int c))) acc cents \<and>
           map pl_total payloads = map (\<lambda>c. centsToAmount (Fin (of_int c))) cents \<and>
           list_all2 (row_of_item productMap) items rows"
proof (induction items arbitrary: acc payloads rows)
  case Nil
  then have "sub = foldl (\<lambda>s c. js_add s (Fin (of_int c))) acc [] \<and>
           map pl_total payloads = map (\<lambda>c. centsToAmount (Fin (of_int c))) ([] :: int list) \<and>
           list_all2 (row_of_item productMap) [] rows"
    by auto
  then show ?case by blast
next
  case (Cons item rest)
  from Cons.prems(1) obtain p l ps where
    pi: "priceItem rt productMap item = Inr (p, l)"
    and mi: "mapItems rt productMap (js_add acc l) rest = Inr (ps, sub)"
    and pe: "payloads = p # ps"
    by (auto split: sum.splits prod.splits)
  from Cons.prems(2) pe obtain row rows' where
    re: "rows = row # rows'" and r1: "row_of_payload p row" and rs: "list_all2 row_of_payload ps rows'"
    by (auto simp: list_all2_Cons1)
  from priceItem_row [OF pi r1] obtain z :: int where
    z: "l = Fin (of_int z)" "pl_total p = centsToAmount (Fin (of_int z))"
       "row_of_item productMap item row"
    by blast
  from Cons.IH [OF mi rs] obtain cents where
    c: "sub = foldl (\<lambda>s c. js_add s (Fin (of_int c))) (js_add acc l) cents"
       "map pl_total ps = map (\<lambda>c. centsToAmount (Fin (of_int c))) cents"
       "list_all2 (row_of_item productMap) rest rows'"
    by blast
  have "sub = foldl (\<lambda>s c. js_add s (Fin (of_int c))) acc (z # cents)"
    using c(1) z(1) by simp
  moreover have "map pl_total payloads = map (\<lambda>c. centsToAmount (Fin (of_int c))) (z # cents)"
    using c(2) z(2) pe by simp
  moreover have "list_all2 (row_of_item productMap) (item # rest) rows"
    using c(3) z(3) re by simp
  ultimately show ?case by blast
qed

text \<open>Up to \<open>2 ^ 53\<close> the additions of whole numbers are exact.\<close>

lemma js_add_int:
  assumes "\<bar>a + c\<bar> \<le> 2 ^ 53"
  shows "js_add (Fin (of_int a)) (Fin (of_int c)) = Fin (of_int (a + c))"
proof -
  have "js_add (Fin (of_int a)) (Fin (of_int c)) = double (of_int (a + c))"
    by simp
  with double_of_int [OF assms] show ?thesis by simp
qed

lemma foldl_js_add_int:
  "\<bar>a\<bar> + sum_list (map abs cents) \<le> 2 ^ 53 \<Longrightarrow>
   foldl (\<lambda>s c. js_add s (Fin (of_int c))) (Fin (of_int a)) cents = Fin (of_int (a + sum_list cents))"
proof (induction cents arbitrary: a)
  case Nil
  then show ?case by simp
next
  case (Cons c cents)
  from Cons.prems have b: "\<bar>a + c\<bar> + sum_list (map abs cents) \<le> 2 ^ 53"
    by simp
  have n: "0 \<le> sum_list (map abs cents)"
    by (rule sum_list_nonneg) auto
  from b n have "\<bar>a + c\<bar> \<le> 2 ^ 53"
    by linarith
  from js_add_int [OF this] Cons.IH [OF b] show ?case
    by (simp add: add.assoc)
qed

lemma sum_list_cents:
  "sum_list (map (\<lambda>c. of_int c / 100) cents) = (of_int (sum_list cents) :: rat) / 100"
  by (induction cents) (simp_all add: add_divide_distrib)

lemma abs_sum_list_le: "\<bar>sum_list cents\<bar> \<le> sum_list (map abs cents)" for cents :: "int list"
  by (induction cents) auto

lemma abs_member_le_sum_list: "c \<in> set cents \<Longrightarrow> \<bar>c\<bar> \<le> sum_list (map abs cents)"
  for cents :: "int list"
proof (induction cents)
  case Nil
  then show ?case by simp
next
  case (Cons a cents)
  have "0 \<le> sum_list (map abs cents)"
    by (rule sum_list_nonneg) auto
  with Cons show ?case by auto
qed

text \<open>The amount stored for a number of cents.\<close>

lemma stored_amount:
  assumes "centsToAmount (Fin (of_int c)) = Fin a" and "\<bar>c\<bar> \<le> 10 ^ 14"
  shows "written_decimal a = of_int c / 100"
proof -
  from written_amount [OF assms(2)] obtain d where
    "double (of_int c / 100) = Fin d" "written_decimal d = of_int c / 100"
    by blast
  with assms(1) show ?thesis
    by (simp add: centsToAmount_def)
qed

lemma stored_totals:
  "list_all2 row_of_payload payloads rows \<Longrightarrow>
   map pl_total payloads = map (\<lambda>c. centsToAmount (Fin (of_int c))) cents \<Longrightarrow>
   \<forall>c\<in>set cents. \<bar>c\<bar> \<le> 10 ^ 14 \<Longrightarrow>
   map si_total rows = map (\<lambda>c. of_int c / 100) cents"
proof (induction payloads rows arbitrary: cents rule: list_all2_induct)
  case Nil
  then show ?case by simp
next
  case (Cons p ps row rows)
  from Cons.prems(1) obtain c cs where
    c: "cents = c # cs" "pl_total p = centsToAmount (Fin (of_int c))"
       "map pl_total ps = map (\<lambda>c. centsToAmount (Fin (of_int c))) cs"
    by (auto simp: Cons_eq_map_conv)
  from Cons.hyps(1) obtain t where t: "pl_total p = Fin t" "si_total row = written_decimal t"
    by (auto simp: row_of_payload_def)
  from Cons.prems(2) c(1) have b: "\<bar>c\<bar> \<le> 10 ^ 14" and bs: "\<forall>c\<in>set cs. \<bar>c\<bar> \<le> 10 ^ 14"
    by simp_all
  from t(1) c(2) have "centsToAmount (Fin (of_int c)) = Fin t"
    by simp
  from stored_amount [OF this b] t(2) have "si_total row = of_int c / 100"
    by simp
  with Cons.IH [OF c(3) bs] c(1) show ?case by simp
qed

text \<open>What a committed request leaves behind, put together.\<close>

lemma committed_sale:
  assumes prep: "POST_prepare rt d v = Inr (itemsPayload, subtotalInCents, discountInCents)"
    and com: "POST_commit rt v itemsPayload subtotalInCents discountInCents d1 = (resp, d2)"
    and ok: "status resp = 201"
  shows "\<exists>created productMap cents D sub disc tot.
           sales d2 = sales d1 @ [created] \<and>
           resp = json_response (SaleBody (formatSale (with_relations d1 created))) 201 \<and>
           (\<forall>s pw. productMap s = Some pw \<longrightarrow>
              (\<exists>p. find_product d s = Some p \<and>
                 pw = \<lparr> pw_id = p_id p, pw_name = p_name p, pw_price = p_price p,
                        pw_stock = stocks d s \<rparr>)) \<and>
           list_all2 (row_of_item productMap) (v_items v) (s_items created) \<and>
           list_all2 row_of_payload itemsPayload (s_items created) \<and>
           map pl_total itemsPayload = map (\<lambda>c. centsToAmount (Fin (of_int c))) cents \<and>
           subtotalInCents = foldl (\<lambda>s c. js_add s (Fin (of_int c))) (Fin 0) cents \<and>
           discountInCents = Fin (of_int D) \<and>
           \<not> js_gt discountInCents subtotalInCents \<and>
           centsToAmount subtotalInCents = Fin sub \<and>
           centsToAmount discountInCents = Fin disc \<and>
           centsToAmount (js_sub subtotalInCents discountInCents) = Fin tot \<and>
           s_subtotal created = written_decimal sub \<and>
           s_discount created = Some (written_decimal disc) \<and>
           s_totalAmount created = written_decimal tot"
proof -
  from POST_commit_201 [OF com ok] obtain sw where
    tx: "sale_tx rt v itemsPayload subtotalInCents discountInCents d1 = (Inr sw, d2)"
    and resp: "resp = json_response (SaleBody (formatSale sw)) 201"
    by blast
  from sale_tx_Inr [OF tx] obtain uid sub disc tot rows created where
    a: "centsToAmount subtotalInCents = Fin sub"
       "centsToAmount discountInCents = Fin disc"
       "centsToAmount (js_sub subtotalInCents discountInCents) = Fin tot"
       "create_items rt 0 itemsPayload = Inr rows"
    and cr: "created = \<lparr> s_id = new_sale_id rt,
                       s_receiptNumber = resolveReceiptNumber rt (v_receiptNumber v),
                       s_userId = uid, s_paymentMethod = v_paymentMethod v,
                       s_subtotal = written_decimal sub,
                       s_discount = Some (written_decimal disc),
                       s_totalAmount = written_decimal tot, s_createdAt = db_now rt,
                       s_items = rows \<rparr>"
    and s2: "sales d2 = sales d1 @ [created]"
    and sw: "sw = with_relations d1 created"
    by blast
  from POST_prepare_Inr [OF prep] have
    it: "POST_items rt d v = Inr (itemsPayload, subtotalInCents)"
    and dc: "discountInCents = toCents (v_discount v)"
    and le: "\<not> js_gt discountInCents subtotalInCents"
    by blast+
  from POST_items_Inr [OF it] obtain productMap where
    mi: "mapItems rt productMap (Fin 0) (v_items v) = Inr (itemsPayload, subtotalInCents)"
    and pm: "\<forall>s pw. productMap s = Some pw \<longrightarrow>
              (\<exists>p. find_product d s = Some p \<and>
                 pw = \<lparr> pw_id = p_id p, pw_name = p_name p, pw_price = p_price p,
                        pw_stock = stocks d s \<rparr>)"
    by auto
  note rp = create_items_rows [OF a(4)]
  from mapItems_rows [OF mi rp] obtain cents where
    c: "subtotalInCents = foldl (\<lambda>s c. js_add s (Fin (of_int c))) (Fin 0) cents"
       "map pl_total itemsPayload = map (\<lambda>c. centsToAmount (Fin (of_int c))) cents"
       "list_all2 (row_of_item productMap) (v_items v) rows"
    by auto
  from centsToAmount_Fin [OF a(2)] obtain x where
    x: "discountInCents = Fin x"
    by blast
  from toCents_Fin [OF x(1) [unfolded dc]] obtain w :: rat where "x = of_int (round w)"
    by blast
  define D where "D = round w"
  have dD: "discountInCents = Fin (of_int D)"
    using x \<open>x = of_int (round w)\<close> by (simp add: D_def)
  have k2: "s_items created = rows"
    and k3: "s_subtotal created = written_decimal sub"
    and k4: "s_discount created = Some (written_decimal disc)"
    and k5: "s_totalAmount created = written_decimal tot"
    using cr by simp_all
  have resp': "resp = json_response (SaleBody (formatSale (with_relations d1 created))) 201"
    using resp sw by simp
  have k7: "list_all2 (row_of_item productMap) (v_items v) (s_items created)"
    and k8: "list_all2 row_of_payload itemsPayload (s_items created)"
    using c(3) rp k2 by simp_all
  from s2 resp' pm k7 k8 c(2) c(1) dD le a(1) a(2) a(3) k3 k4 k5
  show ?thesis by blast
qed

section \<open>The totals of a committed sale\<close>

text \<open>What validation makes of the two sample requests, and the second one priced and committed.\<close>

lemma validate1: "POST_validate rt0 (request_discount items1 (JNum (Fin (5 / 4)))) = Inr v1"
  by code_simp

lemma validate2: "POST_validate rt0 (request_discount items2 (amount (25 / 100))) = Inr v2"
  by code_simp

lemma prepare2: "POST_prepare rt0 db0 v2 = Inr (payload2, Fin 131, Fin 25)"
  by code_simp

lemma commit2_status: "status (fst (POST_commit rt0 v2 payload2 (Fin 131) (Fin 25) db0)) = 201"
  by code_simp

lemma commit2_rows:
  "map si_price (s_items (last (sales (snd (POST_commit rt0 v2 payload2 (Fin 131) (Fin 25) db0)))))
     = [45 / 100, 1]"
  "map si_total (s_items (last (sales (snd (POST_commit rt0 v2 payload2 (Fin 131) (Fin 25) db0)))))
     = [31 / 100, 1]"
  by code_simp+

lemma payload2_totals:
  "map pl_total payload2 = map (\<lambda>c. centsToAmount (Fin (of_int c))) [31, 100]"
  by code_simp

text \<open>
  C2. For every committed sale there are whole numbers of cents, those of the line
  totals and of the discount as the handler computed them: the payload has the line
  totals, the subtotal is their sum as the loop adds them up, and the discount in
  cents is the number for the discount. As long as the cents of the lines and of the
  discount together are at most \<open>10 ^ 14\<close>, where the sums of doubles are exact and
  the text of an amount is the amount to the cent, every line total, the discount, the
  subtotal and the total that are stored are these numbers of cents divided by 100:
  the subtotal is the sum of the line totals and the total is the subtotal less the
  discount, cent for cent, whatever the quantities and the discount, and the discount
  is at most the subtotal. The products may have been read from an earlier state \<open>d\<close>
  of the database than the state \<open>d1\<close> the transaction runs on.
\<close>

theorem committed_sale_totals:
  assumes "POST_prepare rt d v = Inr (itemsPayload, subtotalInCents, discountInCents)"
    and "POST_commit rt v itemsPayload subtotalInCents discountInCents d1 = (resp, d2)"
    and "status resp = 201"
  shows "\<exists>created cents D.
           sales d2 = sales d1 @ [created] \<and>
           body resp = SaleBody (formatSale (with_relations d1 created)) \<and>
           map pl_total itemsPayload = map (\<lambda>c. centsToAmount (Fin (of_int c))) cents \<and>
           subtotalInCents = foldl (\<lambda>s c. js_add s (Fin (of_int c))) (Fin 0) cents \<and>
           discountInCents = Fin (of_int D) \<and>
           (sum_list (map abs cents) + \<bar>D\<bar> \<le> 10 ^ 14 \<longrightarrow>
              map si_total (s_items created) = map (\<lambda>c. of_int c / 100) cents \<and>
              s_discount created = Some (of_int D / 100) \<and>
              s_subtotal created = of_int (sum_list cents) / 100 \<and>
              s_totalAmount created = of_int (sum_list cents - D) / 100 \<and>
              D \<le> sum_list cents \<and>
              s_subtotal created = sum_list (map si_total (s_items created)) \<and>
              s_totalAmount created = s_subtotal created - of_int D / 100)"
proof -
  from committed_sale [OF assms] obtain created cents D sub disc tot where
    c: "sales d2 = sales d1 @ [created]"
       "resp = json_response (SaleBody (formatSale (with_relations d1 created))) 201"
       "list_all2 row_of_payload itemsPayload (s_items created)"
       "map pl_total itemsPayload = map (\<lambda>c. centsToAmount (Fin (of_int c))) cents"
       "subtotalInCents = foldl (\<lambda>s c. js_add s (Fin (of_int c))) (Fin 0) cents"
       "discountInCents = Fin (of_int D)"
       "\<not> js_gt discountInCents subtotalInCents"
    and a: "centsToAmount subtotalInCents = Fin sub"
       "centsToAmount discountInCents = Fin disc"
       "centsToAmount (js_sub subtotalInCents discountInCents) = Fin tot"
    and k: "s_subtotal created = written_decimal sub"
       "s_discount created = Some (written_decimal disc)"
       "s_totalAmount created = written_decimal tot"
    by blast
  have b: "body resp = SaleBody (formatSale (with_relations d1 created))"
    using c(2) by (simp add: json_response_def)
  have "map si_total (s_items created) = map (\<lambda>c. of_int c / 100) cents \<and>
        s_discount created = Some (of_int D / 100) \<and>
        s_subtotal created = of_int (sum_list cents) / 100 \<and>
        s_totalAmount created = of_int (sum_list cents - D) / 100 \<and>
        D \<le> sum_list cents \<and>
        s_subtotal created = sum_list (map si_total (s_items created)) \<and>
        s_totalAmount created = s_subtotal created - of_int D / 100"
    if small: "sum_list (map abs cents) + \<bar>D\<bar> \<le> 10 ^ 14"
  proof -
    have n: "0 \<le> sum_list (map abs cents)"
      by (rule sum_list_nonneg) auto
    have "(10 :: int) ^ 14 \<le> 2 ^ 53"
      by simp
    with small have bound: "sum_list (map abs cents) + \<bar>D\<bar> \<le> 2 ^ 53"
      by (rule order_trans)
    have each: "\<forall>c\<in>set cents. \<bar>c\<bar> \<le> 10 ^ 14"
      using abs_member_le_sum_list [of _ cents] small by fastforce
    have bS: "\<bar>sum_list cents\<bar> \<le> 10 ^ 14"
      using abs_sum_list_le [of cents] small by linarith
    have bD: "\<bar>D\<bar> \<le> 10 ^ 14"
      using small n by linarith
    have bT: "\<bar>sum_list cents - D\<bar> \<le> 10 ^ 14"
      using abs_sum_list_le [of cents] small by linarith
    have "\<bar>0 :: int\<bar> + sum_list (map abs cents) \<le> 2 ^ 53"
      using bound by simp
    from foldl_js_add_int [OF this] c(5)
    have sub: "subtotalInCents = Fin (of_int (sum_list cents))"
      by simp
    from c(7) sub c(6) have le: "D \<le> sum_list cents"
      by (simp add: js_gt_def)
    have "\<bar>sum_list cents + (- D)\<bar> \<le> 2 ^ 53"
      using bound abs_sum_list_le [of cents] by linarith
    from js_add_int [OF this]
    have tot: "js_sub subtotalInCents discountInCents = Fin (of_int (sum_list cents - D))"
      unfolding sub c(6) by (simp add: js_sub_def)
    have l1: "map si_total (s_items created) = map (\<lambda>c. of_int c / 100) cents"
      using c(3) c(4) each by (rule stored_totals)
    have d1: "s_discount created = Some (of_int D / 100)"
      using stored_amount [OF a(2) [unfolded c(6)] bD] k(2) by simp
    have s1: "s_subtotal created = of_int (sum_list cents) / 100"
      using stored_amount [OF a(1) [unfolded sub] bS] k(1) by simp
    have t1: "s_totalAmount created = of_int (sum_list cents - D) / 100"
      using stored_amount [OF a(3) [unfolded tot] bT] k(3) by simp
    have s2: "s_subtotal created = sum_list (map si_total (s_items created))"
      using s1 l1 by (simp add: sum_list_cents)
    have t2: "s_totalAmount created = s_subtotal created - of_int D / 100"
      using s1 t1 by (simp add: diff_divide_distrib)
    from l1 d1 s1 t1 le s2 t2 show ?thesis by blast
  qed
  with c(1) b c(4) c(5) c(6) show ?thesis by blast
qed

text \<open>
  The second sample request is committed: lines of 31 and 100 cents and a discount of
  25 cents, subtotal 1.31 and total 1.06.
\<close>

theorem committed_sale_totals_witness:
  "POST_prepare rt0 db0 v2 = Inr (payload2, Fin 131, Fin 25) \<and>
   status (fst (POST_commit rt0 v2 payload2 (Fin 131) (Fin 25) db0)) = 201 \<and>
   map pl_total payload2 = map (\<lambda>c. centsToAmount (Fin (of_int c))) [31, 100] \<and>
   sum_list (map abs [31, 100]) + \<bar>25\<bar> \<le> (10 :: int) ^ 14 \<and>
   (\<exists>created.
      sales (snd (POST_commit rt0 v2 payload2 (Fin 131) (Fin 25) db0)) = sales db0 @ [created] \<and>
      map si_total (s_items created) = [31 / 100, 1] \<and>
      s_discount created = Some (25 / 100) \<and>
      s_subtotal created = 131 / 100 \<and>
      s_totalAmount created = 106 / 100 \<and>
      s_subtotal created = sum_list (map si_total (s_items created)) \<and>
      s_totalAmount created = s_subtotal created - 25 / 100)"
proof -
  let ?c = "POST_commit rt0 v2 payload2 (Fin 131) (Fin 25) db0"
  have c: "?c = (fst ?c, snd ?c)"
    by simp
  from committed_sale_totals [OF prepare2 c commit2_status] obtain created cents D where
    k: "sales (snd ?c) = sales db0 @ [created]"
       "map pl_total payload2 = map (\<lambda>c. centsToAmount (Fin (of_int c))) cents"
       "(Fin 25 :: jsnum) = Fin (of_int D)"
    and i: "sum_list (map abs cents) + \<bar>D\<bar> \<le> 10 ^ 14 \<longrightarrow>
              map si_total (s_items created) = map (\<lambda>c. of_int c / 100) cents \<and>
              s_discount created = Some (of_int D / 100) \<and>
              s_subtotal created = of_int (sum_list cents) / 100 \<and>
              s_totalAmount created = of_int (sum_list cents - D) / 100 \<and>
              D \<le> sum_list cents \<and>
              s_subtotal created = sum_list (map si_total (s_items created)) \<and>
              s_totalAmount created = s_subtotal created - of_int D / 100"
    by blast
  from k(3) have D: "D = 25"
    by simp
  from k(2) payload2_totals obtain c1 c2 where
    cs: "cents = [c1, c2]"
    and e1: "centsToAmount (Fin (of_int c1)) = centsToAmount (Fin (of_int (31 :: int)))"
    and e2: "centsToAmount (Fin (of_int c2)) = centsToAmount (Fin (of_int (100 :: int)))"
    by (auto simp: map_eq_Cons_conv)
  have same: "z = a"
    if "centsToAmount (Fin (of_int z)) = centsToAmount (Fin (of_int a))" "\<bar>a\<bar> \<le> 10 ^ 14"
    for z a :: int
  proof -
    from written_amount [OF that(2)] obtain d where
      d: "double (of_int a / 100) = Fin d" "written_decimal d = of_int a / 100"
      by blast
    from that(1) d(1) have "double (of_int z / 100) = Fin d"
      by (simp add: centsToAmount_def)
    from cents_unique [OF this d(2) that(2)] show ?thesis .
  qed
  from same [OF e1] same [OF e2] cs have cents: "cents = [31, 100]"
    by simp
  have bound: "sum_list (map abs [31, 100]) + \<bar>25\<bar> \<le> (10 :: int) ^ 14"
    by simp
  from i [unfolded cents D] bound have
    "map si_total (s_items created) = [31 / 100, 1] \<and>
      s_discount created = Some (25 / 100) \<and>
      s_subtotal created = 131 / 100 \<and>
      s_totalAmount created = 106 / 100 \<and>
      s_subtotal created = sum_list (map si_total (s_items created)) \<and>
      s_totalAmount created = s_subtotal created - 25 / 100"
    by simp
  with k(1) have "\<exists>created.
      sales (snd ?c) = sales db0 @ [created] \<and>
      map si_total (s_items created) = [31 / 100, 1] \<and>
      s_discount created = Some (25 / 100) \<and>
      s_subtotal created = 131 / 100 \<and>
      s_totalAmount created = 106 / 100 \<and>
      s_subtotal created = sum_list (map si_total (s_items created)) \<and>
      s_totalAmount created = s_subtotal created - 25 / 100"
    by (intro exI [of _ created]) simp
  with prepare2 commit2_status payload2_totals bound show ?thesis by simp
qed

text \<open>
  C10. For every line of a committed sale, the unit price that is stored is not the
  unit price of the request or the catalog as it stands: the unit price times 100, a
  product of doubles, is rounded to a whole number of cents, and that divided by 100
  is stored. The line is priced from the rounded price, its total being the rounded
  double product of the price in cents and the quantity, so that the stored price and
  line total are both whole numbers of cents, up to \<open>10 ^ 14\<close> cents, where the text
  of an amount is the amount to the cent.
\<close>

theorem persisted_prices_are_whole_cents:
  assumes "POST_prepare rt d v = Inr (itemsPayload, subtotalInCents, discountInCents)"
    and "POST_commit rt v itemsPayload subtotalInCents discountInCents d1 = (resp, d2)"
    and "status resp = 201"
  shows "\<exists>created.
           sales d2 = sales d1 @ [created] \<and>
           length (s_items created) = length (v_items v) \<and>
           (\<forall>k<length (v_items v). \<exists>product u w q t.
              sp_productId (v_items v ! k) = JStr (p_id product) \<and>
              find_product d (p_id product) = Some product \<and>
              (case sp_priceOverride (v_items v ! k) of
                 Some p \<Rightarrow> p
               | None \<Rightarrow> double (p_price product)) = Fin u \<and>
              double (u * 100) = Fin w \<and>
              (\<bar>round w\<bar> \<le> 10 ^ 14 \<longrightarrow>
                 si_price (s_items created ! k) = of_int (round w) / 100) \<and>
              sp_quantity (v_items v ! k) = Fin q \<and>
              double (of_int (round w) * q) = Fin t \<and>
              (\<bar>round t\<bar> \<le> 10 ^ 14 \<longrightarrow>
                 si_total (s_items created ! k) = of_int (round t) / 100))"
proof -
  from committed_sale [OF assms] obtain created productMap where
    s: "sales d2 = sales d1 @ [created]"
    and pm: "\<forall>s pw. productMap s = Some pw \<longrightarrow>
              (\<exists>p. find_product d s = Some p \<and>
                 pw = \<lparr> pw_id = p_id p, pw_name = p_name p, pw_price = p_price p,
                        pw_stock = stocks d s \<rparr>)"
    and rows: "list_all2 (row_of_item productMap) (v_items v) (s_items created)"
    by blast
  from rows have len: "length (s_items created) = length (v_items v)"
    by (simp add: list_all2_lengthD)
  have "\<exists>product u w q t.
              sp_productId (v_items v ! k) = JStr (p_id product) \<and>
              find_product d (p_id product) = Some product \<and>
              (case sp_priceOverride (v_items v ! k) of
                 Some p \<Rightarrow> p
               | None \<Rightarrow> double (p_price product)) = Fin u \<and>
              double (u * 100) = Fin w \<and>
              (\<bar>round w\<bar> \<le> 10 ^ 14 \<longrightarrow>
                 si_price (s_items created ! k) = of_int (round w) / 100) \<and>
              sp_quantity (v_items v ! k) = Fin q \<and>
              double (of_int (round w) * q) = Fin t \<and>
              (\<bar>round t\<bar> \<le> 10 ^ 14 \<longrightarrow>
                 si_total (s_items created ! k) = of_int (round t) / 100)"
    if k: "k < length (v_items v)" for k
  proof -
    let ?item = "v_items v ! k" and ?row = "s_items created ! k"
    from rows k have "row_of_item productMap ?item ?row"
      by (simp add: list_all2_nthD)
    then obtain pw u w q t sp st where
      r: "sp_productId ?item = JStr (si_productId ?row)"
         "productMap (si_productId ?row) = Some pw"
         "unitPrice_of pw ?item = Fin u"
         "double (u * 100) = Fin w"
         "double (of_int (round w) / 100) = Fin sp"
         "si_price ?row = written_decimal sp"
         "sp_quantity ?item = Fin q"
         "double (of_int (round w) * q) = Fin t"
         "double (of_int (round t) / 100) = Fin st"
         "si_total ?row = written_decimal st"
      unfolding row_of_item_def by blast
    from pm r(2) obtain p where
      p: "find_product d (si_productId ?row) = Some p"
         "pw = \<lparr> pw_id = p_id p, pw_name = p_name p, pw_price = p_price p,
                 pw_stock = stocks d (si_productId ?row) \<rparr>"
      by blast
    from find_product_id [OF p(1)] have id: "p_id p = si_productId ?row" .
    from r(3) p(2) have up:
      "(case sp_priceOverride ?item of Some x \<Rightarrow> x | None \<Rightarrow> double (p_price p)) = Fin u"
      by (simp add: unitPrice_of_def)
    have sp: "si_price ?row = of_int (round w) / 100" if "\<bar>round w\<bar> \<le> 10 ^ 14"
      using stored_amount [of "round w" sp, OF _ that] r(5) r(6) by (simp add: centsToAmount_def)
    have st: "si_total ?row = of_int (round t) / 100" if "\<bar>round t\<bar> \<le> 10 ^ 14"
      using stored_amount [of "round t" st, OF _ that] r(9) r(10) by (simp add: centsToAmount_def)
    from r(1) r(4) r(7) r(8) p(1) id up sp st show ?thesis
      by (intro exI [of _ p] exI [of _ u] exI [of _ w] exI [of _ q] exI [of _ t]) simp
  qed
  with s len show ?thesis by blast
qed

lemma override2_cents:
  "(case double (1005 / 1000) of
      Fin u \<Rightarrow> (case double (u * 100) of Fin w \<Rightarrow> round w | _ \<Rightarrow> 0)
    | _ \<Rightarrow> 0) = 100"
  by code_simp

text \<open>
  The override 1.005 of the second line of the second sample request, times 100 the
  double 100.49999999999999, is stored as 1.00; its first line, 0.7 units at 0.45, has
  the total 0.31.
\<close>

theorem persisted_prices_are_whole_cents_witness:
  "POST_prepare rt0 db0 v2 = Inr (payload2, Fin 131, Fin 25) \<and>
   status (fst (POST_commit rt0 v2 payload2 (Fin 131) (Fin 25) db0)) = 201 \<and>
   sp_priceOverride (v_items v2 ! 1) = Some (double (1005 / 1000)) \<and>
   map si_price (s_items (last (sales (snd (POST_commit rt0 v2 payload2 (Fin 131) (Fin 25) db0)))))
     = [45 / 100, 1] \<and>
   map si_total (s_items (last (sales (snd (POST_commit rt0 v2 payload2 (Fin 131) (Fin 25) db0)))))
     = [31 / 100, 1] \<and>
   (\<exists>created.
      sales (snd (POST_commit rt0 v2 payload2 (Fin 131) (Fin 25) db0)) = sales db0 @ [created] \<and>
      length (s_items created) = length (v_items v2) \<and>
      (\<exists>product u w q t.
         sp_productId (v_items v2 ! 1) = JStr (p_id product) \<and>
         find_product db0 (p_id product) = Some product \<and>
         double (1005 / 1000) = Fin u \<and>
         double (u * 100) = Fin w \<and>
         round w = 100 \<and> \<bar>round w\<bar> \<le> 10 ^ 14 \<and>
         si_price (s_items created ! 1) = of_int (round w) / 100 \<and>
         sp_quantity (v_items v2 ! 1) = Fin q \<and>
         double (of_int (round w) * q) = Fin t))"
proof -
  let ?c = "POST_commit rt0 v2 payload2 (Fin 131) (Fin 25) db0"
  have c: "?c = (fst ?c, snd ?c)"
    by simp
  have k: "1 < length (v_items v2)"
    by (simp add: v2_def)
  have o: "sp_priceOverride (v_items v2 ! 1) = Some (double (1005 / 1000))"
    by (simp add: v2_def)
  from persisted_prices_are_whole_cents [OF prepare2 c commit2_status] k
  obtain created product u w q t where
    r: "sales (snd ?c) = sales db0 @ [created]"
       "length (s_items created) = length (v_items v2)"
       "sp_productId (v_items v2 ! 1) = JStr (p_id product)"
       "find_product db0 (p_id product) = Some product"
       "(case sp_priceOverride (v_items v2 ! 1) of
           Some p \<Rightarrow> p
         | None \<Rightarrow> double (p_price product)) = Fin u"
       "double (u * 100) = Fin w"
       "\<bar>round w\<bar> \<le> 10 ^ 14 \<longrightarrow> si_price (s_items created ! 1) = of_int (round w) / 100"
       "sp_quantity (v_items v2 ! 1) = Fin q"
       "double (of_int (round w) * q) = Fin t"
    by blast
  from r(5) have u: "double (1005 / 1000) = Fin u"
    unfolding o by simp
  from override2_cents have w: "round w = 100"
    unfolding u using r(6) by simp
  then have b: "\<bar>round w\<bar> \<le> 10 ^ 14"
    by simp
  with r(7) have p: "si_price (s_items created ! 1) = of_int (round w) / 100"
    by blast
  from r(1-4) u r(6) w b p r(8) r(9) have "\<exists>created.
      sales (snd ?c) = sales db0 @ [created] \<and>
      length (s_items created) = length (v_items v2) \<and>
      (\<exists>product u w q t.
         sp_productId (v_items v2 ! 1) = JStr (p_id product) \<and>
         find_product db0 (p_id product) = Some product \<and>
         double (1005 / 1000) = Fin u \<and>
         double (u * 100) = Fin w \<and>
         round w = 100 \<and> \<bar>round w\<bar> \<le> 10 ^ 14 \<and>
         si_price (s_items created ! 1) = of_int (round w) / 100 \<and>
         sp_quantity (v_items v2 ! 1) = Fin q \<and>
         double (of_int (round w) * q) = Fin t)"
    by blast
  with prepare2 commit2_status o commit2_rows(1) commit2_rows(2) show ?thesis by blast
qed

section \<open>The discount at the boundary\<close>

lemma POST_prepare_discount:
  assumes "POST_items rt d v = Inr (itemsPayload, subtotalInCents)"
  shows "POST_prepare rt d v =
           (if js_gt (toCents (v_discount v)) subtotalInCents
            then Inl (json_response (ErrorBody ''Discount cannot exceed subtotal.'') 400)
            else Inr (itemsPayload, subtotalInCents, toCents (v_discount v)))"
  using assms by (simp add: POST_prepare_def Let_def)

lemma js_sub_self: "js_sub (Fin a) (Fin a) = Fin 0"
  by (simp add: js_sub_def double_def)

text \<open>
  C5. For a request that passes validation and pricing: when the discount in cents
  equals the subtotal in cents the handler goes on to the transaction, and a sale it
  commits has total 0 and a discount equal to its subtotal; when the subtotal is a
  number of cents and the discount is one cent more, the handler answers 400
  "Discount cannot exceed subtotal." before the transaction, and the database is
  unchanged.
\<close>

theorem discount_boundary:
  assumes V: "POST_validate rt request_json = Inr v"
    and I: "POST_items rt d v = Inr (itemsPayload, subtotalInCents)"
  shows "(toCents (v_discount v) = subtotalInCents \<longrightarrow>
            POST rt d request_json = POST_commit rt v itemsPayload subtotalInCents subtotalInCents d \<and>
            (\<forall>d1 resp d2.
               POST_commit rt v itemsPayload subtotalInCents subtotalInCents d1 = (resp, d2) \<longrightarrow>
               status resp = 201 \<longrightarrow>
               (\<exists>created. sales d2 = sales d1 @ [created] \<and>
                  s_totalAmount created = 0 \<and>
                  s_discount created = Some (s_subtotal created) \<and>
                  body resp = SaleBody (formatSale (with_relations d1 created))))) \<and>
         (\<forall>S. subtotalInCents = Fin S \<and> toCents (v_discount v) = Fin (S + 1) \<longrightarrow>
            POST_prepare rt d v = Inl (json_response (ErrorBody ''Discount cannot exceed subtotal.'') 400) \<and>
            POST rt d request_json = (json_response (ErrorBody ''Discount cannot exceed subtotal.'') 400, d))"
proof (intro conjI impI allI)
  assume eq: "toCents (v_discount v) = subtotalInCents"
  have prep: "POST_prepare rt d v = Inr (itemsPayload, subtotalInCents, subtotalInCents)"
    using POST_prepare_discount [OF I] eq by (simp add: js_gt_def js_lt_irrefl)
  with V show "POST rt d request_json = POST_commit rt v itemsPayload subtotalInCents subtotalInCents d"
    by (simp add: POST_def)
  fix d1 resp d2
  assume com: "POST_commit rt v itemsPayload subtotalInCents subtotalInCents d1 = (resp, d2)"
    and ok: "status resp = 201"
  from POST_commit_201 [OF com ok] obtain sw where
    tx: "sale_tx rt v itemsPayload subtotalInCents subtotalInCents d1 = (Inr sw, d2)"
    and resp: "resp = json_response (SaleBody (formatSale sw)) 201"
    by blast
  from sale_tx_Inr [OF tx] obtain uid sub disc tot rows created where
    a: "centsToAmount subtotalInCents = Fin sub"
       "centsToAmount subtotalInCents = Fin disc"
       "centsToAmount (js_sub subtotalInCents subtotalInCents) = Fin tot"
    and cr: "created = \<lparr> s_id = new_sale_id rt,
                       s_receiptNumber = resolveReceiptNumber rt (v_receiptNumber v),
                       s_userId = uid, s_paymentMethod = v_paymentMethod v,
                       s_subtotal = written_decimal sub,
                       s_discount = Some (written_decimal disc),
                       s_totalAmount = written_decimal tot, s_createdAt = db_now rt,
                       s_items = rows \<rparr>"
    and s2: "sales d2 = sales d1 @ [created]"
    and sw: "sw = with_relations d1 created"
    by blast
  from a(1,2) have ds: "disc = sub"
    by simp
  from centsToAmount_Fin [OF a(1)] obtain S where S: "subtotalInCents = Fin S"
    by blast
  from a(3) have "tot = 0"
    unfolding S js_sub_self by (simp add: centsToAmount_def double_def)
  with cr ds have "s_totalAmount created = 0" and "s_discount created = Some (s_subtotal created)"
    by (simp_all add: written_decimal_0)
  moreover from resp sw have "body resp = SaleBody (formatSale (with_relations d1 created))"
    by (simp add: json_response_def)
  ultimately show "\<exists>created. sales d2 = sales d1 @ [created] \<and>
                  s_totalAmount created = 0 \<and>
                  s_discount created = Some (s_subtotal created) \<and>
                  body resp = SaleBody (formatSale (with_relations d1 created))"
    using s2 by blast
next
  fix S
  assume eq: "subtotalInCents = Fin S \<and> toCents (v_discount v) = Fin (S + 1)"
  then have "js_gt (toCents (v_discount v)) subtotalInCents"
    by (simp add: js_gt_def)
  with POST_prepare_discount [OF I]
  show p: "POST_prepare rt d v = Inl (json_response (ErrorBody ''Discount cannot exceed subtotal.'') 400)"
    by simp
  with V show "POST rt d request_json = (json_response (ErrorBody ''Discount cannot exceed subtotal.'') 400, d)"
    by (simp add: POST_def)
qed

text \<open>
  The second sample request, whose lines are 31 and 100 cents, with the discount 1.31
  of its subtotal is committed with total 0; with 1.32 it is rejected. Its first line
  alone, 31 cents, is rejected with the discount 0.32.
\<close>

theorem discount_boundary_witness:
  "POST_validate rt0 (request_discount items2 (amount (131 / 100))) = Inr v_full_discount \<and>
   POST_items rt0 db0 v_full_discount = Inr (payload2, Fin 131) \<and>
   toCents (v_discount v_full_discount) = Fin 131 \<and>
   status (fst (POST rt0 db0 (request_discount items2 (amount (131 / 100))))) = 201 \<and>
   (\<exists>created.
      sales (snd (POST rt0 db0 (request_discount items2 (amount (131 / 100))))) = sales db0 @ [created] \<and>
      s_totalAmount created = 0 \<and> s_discount created = Some (s_subtotal created)) \<and>
   POST_validate rt0 (request_discount items2 (amount (132 / 100))) = Inr v_over_discount \<and>
   POST_items rt0 db0 v_over_discount = Inr (payload2, Fin 131) \<and>
   toCents (v_discount v_over_discount) = Fin (131 + 1) \<and>
   POST rt0 db0 (request_discount items2 (amount (132 / 100)))
     = (json_response (ErrorBody ''Discount cannot exceed subtotal.'') 400, db0) \<and>
   fst (POST rt0 db0 (request_discount [line_priced ''P1'' (7 / 10) (45 / 100)] (amount (32 / 100))))
     = json_response (ErrorBody ''Discount cannot exceed subtotal.'') 400"
proof -
  let ?full = "request_discount items2 (amount (131 / 100))"
  let ?over = "request_discount items2 (amount (132 / 100))"
  have V1: "POST_validate rt0 ?full = Inr v_full_discount"
    by code_simp
  have I1: "POST_items rt0 db0 v_full_discount = Inr (payload2, Fin 131)"
    by code_simp
  have E1: "toCents (v_discount v_full_discount) = Fin 131"
    by code_simp
  have S1: "status (fst (POST rt0 db0 ?full)) = 201"
    by code_simp
  have V2: "POST_validate rt0 ?over = Inr v_over_discount"
    by code_simp
  have I2: "POST_items rt0 db0 v_over_discount = Inr (payload2, Fin 131)"
    by code_simp
  have E2: "toCents (v_discount v_over_discount) = Fin (131 + 1)"
    by code_simp
  have L: "fst (POST rt0 db0 (request_discount [line_priced ''P1'' (7 / 10) (45 / 100)] (amount (32 / 100))))
     = json_response (ErrorBody ''Discount cannot exceed subtotal.'') 400"
    by code_simp
  note full = discount_boundary [OF V1 I1, THEN conjunct1, rule_format, OF E1]
  have "Fin 131 = Fin 131 \<and> toCents (v_discount v_over_discount) = Fin (131 + 1)"
    using E2 by simp
  note over = discount_boundary [OF V2 I2, THEN conjunct2, rule_format, OF this]
  have c: "POST_commit rt0 v_full_discount payload2 (Fin 131) (Fin 131) db0 =
             (fst (POST rt0 db0 ?full), snd (POST rt0 db0 ?full))"
    using full by simp
  from full c S1 have "\<exists>created.
      sales (snd (POST rt0 db0 ?full)) = sales db0 @ [created] \<and>
      s_totalAmount created = 0 \<and> s_discount created = Some (s_subtotal created)"
    by blast
  with V1 I1 E1 S1 V2 I2 E2 over L show ?thesis by blast
qed

section \<open>The order of validation\<close>

text \<open>
  C6 (as stated, refuted). The claim has the discount checked last. A request whose
  only item has no product id (on its own: "Item 1 is missing productId.") and whose
  discount is -1 is rejected for its discount.
\<close>

theorem item_error_hidden_by_discount_counterexample:
  "sanitizeItems rt0 0 [JObj [(''quantity'', JNum (Fin 1))]]
     = Inl (json_response (ErrorBody ''Item 1 is missing productId.'') 400) \<and>
   POST_validate rt0 request_two_errors
     = Inl (json_response (ErrorBody ''discount must be a positive number.'') 400) \<and>
   POST rt0 db0 request_two_errors
     = (json_response (ErrorBody ''discount must be a positive number.'') 400, db0)"
proof (intro conjI)
  show "sanitizeItems rt0 0 [JObj [(''quantity'', JNum (Fin 1))]]
     = Inl (json_response (ErrorBody ''Item 1 is missing productId.'') 400)"
    by code_simp
  show v: "POST_validate rt0 request_two_errors
     = Inl (json_response (ErrorBody ''discount must be a positive number.'') 400)"
    by code_simp
  show "POST rt0 db0 request_two_errors
     = (json_response (ErrorBody ''discount must be a positive number.'') 400, db0)"
    by (simp add: POST_def v)
qed

text \<open>
  C6 (amended). The checks come in this order: the attendant, the payment method, a
  non-empty array of items, the discount (not NaN and not negative), and only then the
  items, one after the other, the first item that fails ending the loop; of an item,
  that it is an object, that it has a product id, that its quantity is finite and
  above 0, and that its price, when there is one, is finite and not below 0. So a
  request that passes the first three checks and has an invalid discount is rejected
  for its discount whatever its items are, and an item is reported only when the
  discount is valid. Where the payment method is turned into text, and the discount,
  a quantity or a price into a number, a value that has no primitive (an object with
  a property \<open>toString\<close>) makes the conversion throw, and the request is answered by
  the catch block: 500 "Unable to create sale.".
\<close>

theorem validation_order:
  "(\<not> truthy (get_prop request_json ''userId'') \<longrightarrow>
      POST_validate rt request_json = Inl (json_response (ErrorBody ''userId is required.'') 400)) \<and>
   (truthy (get_prop request_json ''userId'') \<and>
    String_js rt (get_prop request_json ''paymentMethod'') = Inl e \<longrightarrow>
      POST_validate rt request_json = Inl (POST_catch e)) \<and>
   (truthy (get_prop request_json ''userId'') \<and>
    String_js rt (get_prop request_json ''paymentMethod'') = Inr s \<and>
    \<not> (truthy (get_prop request_json ''paymentMethod'') \<and> toUpperCase s \<in> set (PaymentMethod_values rt)) \<longrightarrow>
      POST_validate rt request_json = Inl (json_response (ErrorBody ''paymentMethod is invalid.'') 400)) \<and>
   (truthy (get_prop request_json ''userId'') \<and>
    String_js rt (get_prop request_json ''paymentMethod'') = Inr s \<and>
    truthy (get_prop request_json ''paymentMethod'') \<and> toUpperCase s \<in> set (PaymentMethod_values rt) \<and>
    (\<forall>xs. get_prop request_json ''items'' = JArr xs \<longrightarrow> xs = []) \<longrightarrow>
      POST_validate rt request_json = Inl (json_response (ErrorBody ''At least one sale item is required.'') 400)) \<and>
   (truthy (get_prop request_json ''userId'') \<and>
    String_js rt (get_prop request_json ''paymentMethod'') = Inr s \<and>
    truthy (get_prop request_json ''paymentMethod'') \<and> toUpperCase s \<in> set (PaymentMethod_values rt) \<and>
    get_prop request_json ''items'' = JArr its \<and> its \<noteq> [] \<and>
    Number_js rt (nullish (get_prop request_json ''discount'') (JNum (Fin 0))) = Inl e \<longrightarrow>
      POST_validate rt request_json = Inl (POST_catch e)) \<and>
   (truthy (get_prop request_json ''userId'') \<and>
    String_js rt (get_prop request_json ''paymentMethod'') = Inr s \<and>
    truthy (get_prop request_json ''paymentMethod'') \<and> toUpperCase s \<in> set (PaymentMethod_values rt) \<and>
    get_prop request_json ''items'' = JArr its \<and> its \<noteq> [] \<and>
    Number_js rt (nullish (get_prop request_json ''discount'') (JNum (Fin 0))) = Inr n \<and>
    (isNaN n \<or> js_lt n (Fin 0)) \<longrightarrow>
      POST_validate rt request_json = Inl (json_response (ErrorBody ''discount must be a positive number.'') 400)) \<and>
   (truthy (get_prop request_json ''userId'') \<and>
    String_js rt (get_prop request_json ''paymentMethod'') = Inr s \<and>
    truthy (get_prop request_json ''paymentMethod'') \<and> toUpperCase s \<in> set (PaymentMethod_values rt) \<and>
    get_prop request_json ''items'' = JArr its \<and> its \<noteq> [] \<and>
    Number_js rt (nullish (get_prop request_json ''discount'') (JNum (Fin 0))) = Inr n \<and>
    \<not> (isNaN n \<or> js_lt n (Fin 0)) \<longrightarrow>
      POST_validate rt request_json =
        (case sanitizeItems rt 0 its of
           Inl r \<Rightarrow> Inl r
         | Inr sanitizedItems \<Rightarrow>
             Inr \<lparr> v_receiptNumber = get_prop request_json ''receiptNumber'',
                   v_userId = get_prop request_json ''userId'',
                   v_paymentMethod = toUpperCase s,
                   v_items = sanitizedItems,
                   v_discount = n \<rparr>)) \<and>
   (sanitizeItem rt index item = Inl r \<longrightarrow>
      sanitizeItems rt index (item # rest) = Inl r) \<and>
   (sanitizeItem rt index item = Inr sanitizedItem \<longrightarrow>
      sanitizeItems rt index (item # rest) =
        (case sanitizeItems rt (index + 1) rest of
           Inl r \<Rightarrow> Inl r
         | Inr sanitized \<Rightarrow> Inr (sanitizedItem # sanitized))) \<and>
   (\<not> (truthy item \<and> typeof_object item) \<longrightarrow>
      sanitizeItem rt index item = Inl (json_response (ErrorBody (''Item at position '' @ show_nat (index + 1) @ '' is invalid.'')) 400)) \<and>
   (truthy item \<and> typeof_object item \<and>
    \<not> truthy (get_prop item ''productId'') \<longrightarrow>
      sanitizeItem rt index item = Inl (json_response (ErrorBody (''Item '' @ show_nat (index + 1) @ '' is missing productId.'')) 400)) \<and>
   (truthy item \<and> typeof_object item \<and>
    truthy (get_prop item ''productId'') \<and>
    Number_js rt (get_prop item ''quantity'') = Inl e \<longrightarrow>
      sanitizeItem rt index item = Inl (POST_catch e)) \<and>
   (truthy item \<and> typeof_object item \<and>
    truthy (get_prop item ''productId'') \<and>
    Number_js rt (get_prop item ''quantity'') = Inr q \<and>
    (\<not> isFinite q \<or> js_le q (Fin 0)) \<longrightarrow>
      sanitizeItem rt index item = Inl (json_response (ErrorBody (''Item '' @ show_nat (index + 1) @ '' quantity must be a positive number.'')) 400)) \<and>
   (truthy item \<and> typeof_object item \<and>
    truthy (get_prop item ''productId'') \<and>
    Number_js rt (get_prop item ''quantity'') = Inr q \<and> isFinite q \<and> \<not> js_le q (Fin 0) \<and>
    get_prop item ''price'' = JUndefined \<longrightarrow>
      sanitizeItem rt index item = Inr \<lparr> sp_productId = get_prop item ''productId'', sp_quantity = q, sp_priceOverride = None \<rparr>) \<and>
   (truthy item \<and> typeof_object item \<and>
    truthy (get_prop item ''productId'') \<and>
    Number_js rt (get_prop item ''quantity'') = Inr q \<and> isFinite q \<and> \<not> js_le q (Fin 0) \<and>
    get_prop item ''price'' \<noteq> JUndefined \<and>
    Number_js rt (get_prop item ''price'') = Inl e \<longrightarrow>
      sanitizeItem rt index item = Inl (POST_catch e)) \<and>
   (truthy item \<and> typeof_object item \<and>
    truthy (get_prop item ''productId'') \<and>
    Number_js rt (get_prop item ''quantity'') = Inr q \<and> isFinite q \<and> \<not> js_le q (Fin 0) \<and>
    get_prop item ''price'' \<noteq> JUndefined \<and>
    Number_js rt (get_prop item ''price'') = Inr p \<and>
    (\<not> isFinite p \<or> js_lt p (Fin 0)) \<longrightarrow>
      sanitizeItem rt index item = Inl (json_response (ErrorBody (''Item '' @ show_nat (index + 1) @ '' price must be a positive number.'')) 400)) \<and>
   (truthy item \<and> typeof_object item \<and>
    truthy (get_prop item ''productId'') \<and>
    Number_js rt (get_prop item ''quantity'') = Inr q \<and> isFinite q \<and> \<not> js_le q (Fin 0) \<and>
    get_prop item ''price'' \<noteq> JUndefined \<and>
    Number_js rt (get_prop item ''price'') = Inr p \<and>
    isFinite p \<and>
    \<not> js_lt p (Fin 0) \<longrightarrow>
      sanitizeItem rt index item = Inr \<lparr> sp_productId = get_prop item ''productId'', sp_quantity = q, sp_priceOverride = Some p \<rparr>) \<and>
   (map_of kvs ''toString'' \<noteq> None \<longrightarrow>
      String_js rt (JObj kvs) = Inl TypeError) \<and>
   (map_of kvs ''toString'' \<noteq> None \<longrightarrow>
      Number_js rt (JObj kvs) = Inl TypeError) \<and>
   POST_catch TypeError = json_response (ErrorBody ''Unable to create sale.'') 500"
proof (intro conjI impI)
  assume "\<not> truthy (get_prop request_json ''userId'')"
  then show "POST_validate rt request_json = Inl (json_response (ErrorBody ''userId is required.'') 400)"
    by (simp add: POST_validate_def Let_def get_prop_nullish discount_default)
next
  assume "truthy (get_prop request_json ''userId'') \<and>
    String_js rt (get_prop request_json ''paymentMethod'') = Inl e"
  then show "POST_validate rt request_json = Inl (POST_catch e)"
    by (simp add: POST_validate_def Let_def get_prop_nullish discount_default)
next
  assume "truthy (get_prop request_json ''userId'') \<and>
    String_js rt (get_prop request_json ''paymentMethod'') = Inr s \<and>
    \<not> (truthy (get_prop request_json ''paymentMethod'') \<and> toUpperCase s \<in> set (PaymentMethod_values rt))"
  then show "POST_validate rt request_json = Inl (json_response (ErrorBody ''paymentMethod is invalid.'') 400)"
    by (auto simp: POST_validate_def Let_def get_prop_nullish discount_default)
next
  assume "truthy (get_prop request_json ''userId'') \<and>
    String_js rt (get_prop request_json ''paymentMethod'') = Inr s \<and>
    truthy (get_prop request_json ''paymentMethod'') \<and> toUpperCase s \<in> set (PaymentMethod_values rt) \<and>
    (\<forall>xs. get_prop request_json ''items'' = JArr xs \<longrightarrow> xs = [])"
  then show "POST_validate rt request_json = Inl (json_response (ErrorBody ''At least one sale item is required.'') 400)"
    by (cases "get_prop request_json ''items''")
       (simp_all add: POST_validate_def Let_def get_prop_nullish discount_default)
next
  assume "truthy (get_prop request_json ''userId'') \<and>
    String_js rt (get_prop request_json ''paymentMethod'') = Inr s \<and>
    truthy (get_prop request_json ''paymentMethod'') \<and> toUpperCase s \<in> set (PaymentMethod_values rt) \<and>
    get_prop request_json ''items'' = JArr its \<and> its \<noteq> [] \<and>
    Number_js rt (nullish (get_prop request_json ''discount'') (JNum (Fin 0))) = Inl e"
  then show "POST_validate rt request_json = Inl (POST_catch e)"
    by (simp add: POST_validate_def Let_def get_prop_nullish discount_default)
next
  assume "truthy (get_prop request_json ''userId'') \<and>
    String_js rt (get_prop request_json ''paymentMethod'') = Inr s \<and>
    truthy (get_prop request_json ''paymentMethod'') \<and> toUpperCase s \<in> set (PaymentMethod_values rt) \<and>
    get_prop request_json ''items'' = JArr its \<and> its \<noteq> [] \<and>
    Number_js rt (nullish (get_prop request_json ''discount'') (JNum (Fin 0))) = Inr n \<and>
    (isNaN n \<or> js_lt n (Fin 0))"
  then show "POST_validate rt request_json = Inl (json_response (ErrorBody ''discount must be a positive number.'') 400)"
    by (auto simp: POST_validate_def Let_def get_prop_nullish discount_default)
next
  assume "truthy (get_prop request_json ''userId'') \<and>
    String_js rt (get_prop request_json ''paymentMethod'') = Inr s \<and>
    truthy (get_prop request_json ''paymentMethod'') \<and> toUpperCase s \<in> set (PaymentMethod_values rt) \<and>
    get_prop request_json ''items'' = JArr its \<and> its \<noteq> [] \<and>
    Number_js rt (nullish (get_prop request_json ''discount'') (JNum (Fin 0))) = Inr n \<and>
    \<not> (isNaN n \<or> js_lt n (Fin 0))"
  then show "POST_validate rt request_json =
        (case sanitizeItems rt 0 its of
           Inl r \<Rightarrow> Inl r
         | Inr sanitizedItems \<Rightarrow>
             Inr \<lparr> v_receiptNumber = get_prop request_json ''receiptNumber'',
                   v_userId = get_prop request_json ''userId'',
                   v_paymentMethod = toUpperCase s,
                   v_items = sanitizedItems,
                   v_discount = n \<rparr>)"
    by (simp add: POST_validate_def Let_def get_prop_nullish discount_default split: sum.splits)
next
  assume "sanitizeItem rt index item = Inl r"
  then show "sanitizeItems rt index (item # rest) = Inl r"
    by simp
next
  assume "sanitizeItem rt index item = Inr sanitizedItem"
  then show "sanitizeItems rt index (item # rest) =
        (case sanitizeItems rt (index + 1) rest of
           Inl r \<Rightarrow> Inl r
         | Inr sanitized \<Rightarrow> Inr (sanitizedItem # sanitized))"
    by simp
next
  assume "\<not> (truthy item \<and> typeof_object item)"
  then show "sanitizeItem rt index item = Inl (json_response (ErrorBody (''Item at position '' @ show_nat (index + 1) @ '' is invalid.'')) 400)"
    by (auto simp: sanitizeItem_def)
next
  assume "truthy item \<and> typeof_object item \<and>
    \<not> truthy (get_prop item ''productId'')"
  then show "sanitizeItem rt index item = Inl (json_response (ErrorBody (''Item '' @ show_nat (index + 1) @ '' is missing productId.'')) 400)"
    by (simp add: sanitizeItem_def)
next
  assume "truthy item \<and> typeof_object item \<and>
    truthy (get_prop item ''productId'') \<and>
    Number_js rt (get_prop item ''quantity'') = Inl e"
  then show "sanitizeItem rt index item = Inl (POST_catch e)"
    by (simp add: sanitizeItem_def)
next
  assume "truthy item \<and> typeof_object item \<and>
    truthy (get_prop item ''productId'') \<and>
    Number_js rt (get_prop item ''quantity'') = Inr q \<and>
    (\<not> isFinite q \<or> js_le q (Fin 0))"
  then show "sanitizeItem rt index item = Inl (json_response (ErrorBody (''Item '' @ show_nat (index + 1) @ '' quantity must be a positive number.'')) 400)"
    by (auto simp: sanitizeItem_def)
next
  assume "truthy item \<and> typeof_object item \<and>
    truthy (get_prop item ''productId'') \<and>
    Number_js rt (get_prop item ''quantity'') = Inr q \<and> isFinite q \<and> \<not> js_le q (Fin 0) \<and>
    get_prop item ''price'' = JUndefined"
  then show "sanitizeItem rt index item = Inr \<lparr> sp_productId = get_prop item ''productId'', sp_quantity = q, sp_priceOverride = None \<rparr>"
    by (simp add: sanitizeItem_def)
next
  assume "truthy item \<and> typeof_object item \<and>
    truthy (get_prop item ''productId'') \<and>
    Number_js rt (get_prop item ''quantity'') = Inr q \<and> isFinite q \<and> \<not> js_le q (Fin 0) \<and>
    get_prop item ''price'' \<noteq> JUndefined \<and>
    Number_js rt (get_prop item ''price'') = Inl e"
  then show "sanitizeItem rt index item = Inl (POST_catch e)"
    by (simp add: sanitizeItem_def)
next
  assume "truthy item \<and> typeof_object item \<and>
    truthy (get_prop item ''productId'') \<and>
    Number_js rt (get_prop item ''quantity'') = Inr q \<and> isFinite q \<and> \<not> js_le q (Fin 0) \<and>
    get_prop item ''price'' \<noteq> JUndefined \<and>
    Number_js rt (get_prop item ''price'') = Inr p \<and>
    (\<not> isFinite p \<or> js_lt p (Fin 0))"
  then show "sanitizeItem rt index item = Inl (json_response (ErrorBody (''Item '' @ show_nat (index + 1) @ '' price must be a positive number.'')) 400)"
    by (auto simp: sanitizeItem_def)
next
  assume "truthy item \<and> typeof_object item \<and>
    truthy (get_prop item ''productId'') \<and>
    Number_js rt (get_prop item ''quantity'') = Inr q \<and> isFinite q \<and> \<not> js_le q (Fin 0) \<and>
    get_prop item ''price'' \<noteq> JUndefined \<and>
    Number_js rt (get_prop item ''price'') = Inr p \<and>
    isFinite p \<and>
    \<not> js_lt p (Fin 0)"
  then show "sanitizeItem rt index item = Inr \<lparr> sp_productId = get_prop item ''productId'', sp_quantity = q, sp_priceOverride = Some p \<rparr>"
    by (simp add: sanitizeItem_def)
next
  assume "map_of kvs ''toString'' \<noteq> None"
  then show "String_js rt (JObj kvs) = Inl TypeError"
    by simp
next
  assume "map_of kvs ''toString'' \<noteq> None"
  then show "Number_js rt (JObj kvs) = Inl TypeError"
    by simp
next
  show "POST_catch TypeError = json_response (ErrorBody ''Unable to create sale.'') 500"
    by (simp add: POST_catch_def TypeError_def)
qed

text \<open>
  The amended order at the request of the counterexample, at its item, and at the two
  requests with an object in the place of the payment method and of the discount.
\<close>

theorem validation_order_witness:
  "truthy (get_prop request_two_errors ''userId'') \<and>
   String_js rt0 (get_prop request_two_errors ''paymentMethod'') = Inr ''cash'' \<and>
   truthy (get_prop request_two_errors ''paymentMethod'') \<and>
   toUpperCase ''cash'' \<in> set (PaymentMethod_values rt0) \<and>
   get_prop request_two_errors ''items'' = JArr [JObj [(''quantity'', JNum (Fin 1))]] \<and>
   Number_js rt0 (nullish (get_prop request_two_errors ''discount'') (JNum (Fin 0))) = Inr (Fin (- 1)) \<and>
   js_lt (Fin (- 1)) (Fin 0) \<and>
   POST_validate rt0 request_two_errors
     = Inl (json_response (ErrorBody ''discount must be a positive number.'') 400) \<and>
   sanitizeItem rt0 0 (JObj [(''quantity'', JNum (Fin 1))])
     = Inl (json_response (ErrorBody ''Item 1 is missing productId.'') 400) \<and>
   String_js rt0 (get_prop request_payment_object ''paymentMethod'') = Inl TypeError \<and>
   POST_validate rt0 request_payment_object
     = Inl (json_response (ErrorBody ''Unable to create sale.'') 500) \<and>
   POST rt0 db0 request_payment_object
     = (json_response (ErrorBody ''Unable to create sale.'') 500, db0) \<and>
   POST rt0 db0 request_discount_object
     = (json_response (ErrorBody ''Unable to create sale.'') 500, db0)"
proof -
  let ?item = "JObj [(''quantity'', JNum (Fin 1))]"
  have u: "truthy (get_prop request_two_errors ''userId'')"
    by code_simp
  have s: "String_js rt0 (get_prop request_two_errors ''paymentMethod'') = Inr ''cash''"
    by code_simp
  have p: "truthy (get_prop request_two_errors ''paymentMethod'')"
    by code_simp
  have m: "toUpperCase ''cash'' \<in> set (PaymentMethod_values rt0)"
    by code_simp
  have i: "get_prop request_two_errors ''items'' = JArr [?item]"
    by code_simp
  have d: "Number_js rt0 (nullish (get_prop request_two_errors ''discount'') (JNum (Fin 0))) = Inr (Fin (- 1))"
    by code_simp
  have l: "js_lt (Fin (- 1)) (Fin 0)"
    by simp
  have n: "[?item] \<noteq> []"
    by simp
  note o = validation_order [where request_json = request_two_errors and rt = rt0
      and s = "''cash''" and its = "[?item]" and n = "Fin (- 1)"]
  from o [THEN conjunct2, THEN conjunct2, THEN conjunct2, THEN conjunct2, THEN conjunct2,
      THEN conjunct1] u s p m i n d l
  have v: "POST_validate rt0 request_two_errors
     = Inl (json_response (ErrorBody ''discount must be a positive number.'') 400)"
    by blast
  have t: "truthy ?item \<and> typeof_object ?item \<and> \<not> truthy (get_prop ?item ''productId'')"
    by simp
  have sh: "show_nat (0 + 1) = ''1''"
    by code_simp
  note q = validation_order [where rt = rt0 and index = 0 and item = ?item]
  from q [THEN conjunct2, THEN conjunct2, THEN conjunct2, THEN conjunct2, THEN conjunct2,
      THEN conjunct2, THEN conjunct2, THEN conjunct2, THEN conjunct2, THEN conjunct2,
      THEN conjunct1] t
  have it: "sanitizeItem rt0 0 ?item
     = Inl (json_response (ErrorBody ''Item 1 is missing productId.'') 400)"
    unfolding sh by simp
  have u2: "truthy (get_prop request_payment_object ''userId'')"
    by code_simp
  have e: "String_js rt0 (get_prop request_payment_object ''paymentMethod'') = Inl TypeError"
    by code_simp
  note w = validation_order [where request_json = request_payment_object and rt = rt0
      and e = TypeError]
  from w [THEN conjunct2, THEN conjunct1] u2 e
  have "POST_validate rt0 request_payment_object = Inl (POST_catch TypeError)"
    by blast
  then have x: "POST_validate rt0 request_payment_object
     = Inl (json_response (ErrorBody ''Unable to create sale.'') 500)"
    by (simp add: POST_catch_def TypeError_def)
  have y: "POST rt0 db0 request_payment_object
     = (json_response (ErrorBody ''Unable to create sale.'') 500, db0)"
    by (simp add: POST_def x)
  have "POST_validate rt0 request_discount_object
     = Inl (json_response (ErrorBody ''Unable to create sale.'') 500)"
    by code_simp
  then have z: "POST rt0 db0 request_discount_object
     = (json_response (ErrorBody ''Unable to create sale.'') 500, db0)"
    by (simp add: POST_def)
  from u s p m i d l v it e x y z show ?thesis by blast
qed

section \<open>Two defects\<close>

text \<open>
  C1 (the code falls short of the claim). No stock should be negative after a commit,
  also when several lines name one product. Both the check before the transaction and
  the re-check inside it compare each line with the stock on its own: two lines of 3
  units against a stock of 5 pass both, the sale is committed with 201 and the stock
  is left at -1.
\<close>

theorem duplicate_lines_oversell:
  "stocks db0 ''P1'' = Some 5 \<and>
   status (fst (POST rt0 db0 (request [line ''P1'' 3, line ''P1'' 3]))) = 201 \<and>
   stocks (snd (POST rt0 db0 (request [line ''P1'' 3, line ''P1'' 3]))) ''P1'' = Some (- 1)"
proof (intro conjI)
  show "stocks db0 ''P1'' = Some 5"
    by code_simp
  show "status (fst (POST rt0 db0 (request [line ''P1'' 3, line ''P1'' 3]))) = 201"
    by code_simp
  show "stocks (snd (POST rt0 db0 (request [line ''P1'' 3, line ''P1'' 3]))) ''P1'' = Some (- 1)"
    by code_simp
qed

text \<open>
  C4 (the code falls short of the claim). An invalid resolved price and a stock that
  changed before the commit should be answered 400 with their reason. Both are thrown
  with a readable message ("Invalid price for Rice.", "Stock levels changed. Please
  refresh and try again."), but the catch block lets only the messages of insufficient
  stock and of a missing stock record through: both are answered 500 "Unable to create
  sale.".
\<close>

theorem readable_failures_answered_500:
  "mapItems rt0 productMap0 (Fin 0) [item0\<lparr> sp_priceOverride := Some (Fin 0) \<rparr>]
     = Inl (Error ''Invalid price for Rice.'') \<and>
   fst (POST rt0 db0 (request [line_priced ''P1'' 2 0]))
     = json_response (ErrorBody ''Unable to create sale.'') 500 \<and>
   POST_prepare rt0 db0 v1 = Inr (payload1, Fin 2498, Fin 125) \<and>
   recheck rt0 db_sold 0 payload1
     = Inl (Error ''Stock levels changed. Please refresh and try again.'') \<and>
   fst (POST_commit rt0 v1 payload1 (Fin 2498) (Fin 125) db_sold)
     = json_response (ErrorBody ''Unable to create sale.'') 500"
proof (intro conjI)
  show "mapItems rt0 productMap0 (Fin 0) [item0\<lparr> sp_priceOverride := Some (Fin 0) \<rparr>]
     = Inl (Error ''Invalid price for Rice.'')"
    by code_simp
  show "fst (POST rt0 db0 (request [line_priced ''P1'' 2 0]))
     = json_response (ErrorBody ''Unable to create sale.'') 500"
    by code_simp
  show "POST_prepare rt0 db0 v1 = Inr (payload1, Fin 2498, Fin 125)"
    by code_simp
  show "recheck rt0 db_sold 0 payload1
     = Inl (Error ''Stock levels changed. Please refresh and try again.'')"
    by code_simp
  show "fst (POST_commit rt0 v1 payload1 (Fin 2498) (Fin 125) db_sold)
     = json_response (ErrorBody ''Unable to create sale.'') 500"
    by code_simp
qed

end
